theory Spec2Isabelle
  imports Complex_Main "HOL-Library.AList" "HOL-Library.Log_Nat"
begin

section \<open>Real-ESRGAN inference helper: a shallow embedding of \<open>realesrgan/utils.py\<close>\<close>

text \<open>
  The Python module defines the class \<open>RealESRGANer\<close> (construction, weight
  interpolation, padding, tiled inference, the per-image pipeline \<open>enhance\<close>) and the
  two pipeline threads \<open>PrefetchReader\<close> and \<open>IOConsumer\<close>.  Python integers are
  modelled by \<open>int\<close>, exceptions by the datatype \<open>error\<close> (a raising call returns
  \<open>Inl\<close>), dictionaries by association lists with distinct keys in insertion order.
  Library calls that live outside the repository (\<open>torch.load\<close>, the network
  \<open>net_g\<close>, \<open>cv2.imread\<close>, ...) are parameters of the model.
\<close>

subsection \<open>Exceptions\<close>

datatype error =
    ValueError
  | NotImplementedError
  | KeyError
  | IndexError
  | AssertionError
  | RuntimeError
  | UnboundLocalError
  | ZeroDivisionError
  | OverflowError
  | CvError
  | OtherError string

subsection \<open>Python lists and dictionaries\<close>

text \<open>\<open>xs[i]\<close> for a non-negative literal index \<open>i\<close>: raises \<open>IndexError\<close> out of range.\<close>

definition list_get :: "'a list \<Rightarrow> nat \<Rightarrow> error + 'a" where
  "list_get xs i = (if i < length xs then Inr (xs ! i) else Inl IndexError)"

type_synonym ('k, 'v) dict = "('k \<times> 'v) list"

text \<open>\<open>d[k]\<close> raises \<open>KeyError\<close> on a missing key; \<open>k in d\<close> is \<open>has_key\<close>.\<close>

definition dict_get :: "('k, 'v) dict \<Rightarrow> 'k \<Rightarrow> error + 'v" where
  "dict_get d k = (case map_of d k of None \<Rightarrow> Inl KeyError | Some v \<Rightarrow> Inr v)"

definition has_key :: "('k, 'v) dict \<Rightarrow> 'k \<Rightarrow> bool" where
  "has_key d k = (map_of d k \<noteq> None)"

text \<open>\<open>d[k] = v\<close>: an existing key keeps its position, a new key is appended.\<close>

definition dict_set :: "('k, 'v) dict \<Rightarrow> 'k \<Rightarrow> 'v \<Rightarrow> ('k, 'v) dict" where
  "dict_set d k v = AList.update k v d"

subsection \<open>Checkpoints and deep network interpolation (\<open>RealESRGANer.dni\<close>)\<close>

text \<open>
  A checkpoint is a dictionary from a key such as \<open>params\<close> or \<open>params_ema\<close> to a
  state dictionary (parameter name to tensor).  The parameter tensors and the
  interpolation weights live in one type \<open>'v\<close> with the tensor arithmetic \<open>*\<close> and
  \<open>+\<close> of the source expression.
\<close>

type_synonym 'v state_dict = "(string, 'v) dict"
type_synonym 'v checkpoint = "(string, 'v state_dict) dict"

text \<open>
  The loop \<open>for k, v_a in net_a[key].items(): net_a[key][k] = dni_weight[0] * v_a +
  dni_weight[1] * net_b[key][k]\<close>.  The items view is live: \<open>v_a\<close> is read from the
  dictionary as it is when \<open>k\<close> is reached, so the loop runs over the keys and carries
  the dictionary \<open>d\<close> that is being written.
\<close>

fun dni_loop ::
  "('v::{times,plus}) list \<Rightarrow> 'v checkpoint \<Rightarrow> string \<Rightarrow> string list \<Rightarrow> 'v state_dict
    \<Rightarrow> error + 'v state_dict" where
  "dni_loop dni_weight net_b key [] d = Inr d"
| "dni_loop dni_weight net_b key (k # ks) d =
     (case dict_get d k of Inl e \<Rightarrow> Inl e | Inr v_a \<Rightarrow>
      case list_get dni_weight 0 of Inl e \<Rightarrow> Inl e | Inr w0 \<Rightarrow>
      case list_get dni_weight 1 of Inl e \<Rightarrow> Inl e | Inr w1 \<Rightarrow>
      case dict_get net_b key of Inl e \<Rightarrow> Inl e | Inr params_b \<Rightarrow>
      case dict_get params_b k of Inl e \<Rightarrow> Inl e | Inr v_b \<Rightarrow>
        dni_loop dni_weight net_b key ks (dict_set d k (w0 * v_a + w1 * v_b)))"

definition dni ::
  "(string \<Rightarrow> error + 'v checkpoint) \<Rightarrow> string \<Rightarrow> string \<Rightarrow> ('v::{times,plus}) list \<Rightarrow> string
    \<Rightarrow> error + 'v checkpoint" where
  "dni torch_load path_a path_b dni_weight key =
     (case torch_load path_a of Inl e \<Rightarrow> Inl e | Inr net_a \<Rightarrow>
      case torch_load path_b of Inl e \<Rightarrow> Inl e | Inr net_b \<Rightarrow>
      case dict_get net_a key of Inl e \<Rightarrow> Inl e | Inr params_a \<Rightarrow>
      case dni_loop dni_weight net_b key (map fst params_a) params_a of
        Inl e \<Rightarrow> Inl e
      | Inr d \<Rightarrow> Inr (dict_set net_a key d))"

subsection \<open>Construction of a torch instance: loading the weights (\<open>__init__\<close>, lines 87-110)\<close>

datatype model_path = PathStr string | PathList "string list"

definition startswith :: "string \<Rightarrow> string \<Rightarrow> bool" where
  "startswith s p = (take (length p) s = p)"

text \<open>
  \<open>loadnet\<close> is either the interpolation of two checkpoints or one loaded checkpoint
  (downloaded first when the path is a URL).
\<close>

definition init_loadnet ::
  "(string \<Rightarrow> error + 'v checkpoint) \<Rightarrow> (string \<Rightarrow> error + string) \<Rightarrow> model_path
    \<Rightarrow> ('v::{times,plus}) list \<Rightarrow> error + 'v checkpoint" where
  "init_loadnet torch_load load_file_from_url model_path dni_weight =
     (case model_path of
        PathList ps \<Rightarrow>
          if length ps \<noteq> length dni_weight then Inl AssertionError
          else (case list_get ps 0 of Inl e \<Rightarrow> Inl e | Inr p0 \<Rightarrow>
                case list_get ps 1 of Inl e \<Rightarrow> Inl e | Inr p1 \<Rightarrow>
                  dni torch_load p0 p1 dni_weight ''params'')
      | PathStr p \<Rightarrow>
          if startswith p ''https://''
          then (case load_file_from_url p of Inl e \<Rightarrow> Inl e | Inr p' \<Rightarrow> torch_load p')
          else torch_load p)"

text \<open>
  Lines 105-110: \<open>params_ema\<close> is preferred, \<open>params\<close> is the fallback, and
  \<open>loadnet[keyname]\<close> raises \<open>KeyError\<close> when the chosen key is missing.  The state
  dictionary goes to \<open>model.load_state_dict\<close>, which returns the loaded model or raises.
\<close>

definition init_torch ::
  "(string \<Rightarrow> error + 'v checkpoint) \<Rightarrow> (string \<Rightarrow> error + string)
    \<Rightarrow> ('v state_dict \<Rightarrow> error + 'm) \<Rightarrow> model_path \<Rightarrow> ('v::{times,plus}) list \<Rightarrow> error + 'm" where
  "init_torch torch_load load_file_from_url load_state_dict model_path dni_weight =
     (case init_loadnet torch_load load_file_from_url model_path dni_weight of
        Inl e \<Rightarrow> Inl e
      | Inr loadnet \<Rightarrow>
          let keyname = (if has_key loadnet ''params_ema'' then ''params_ema'' else ''params'')
          in (case dict_get loadnet keyname of Inl e \<Rightarrow> Inl e | Inr sd \<Rightarrow> load_state_dict sd))"

subsection \<open>Image tensors\<close>

text \<open>
  \<open>self.img\<close> and \<open>self.output\<close> are tensors of shape (batch, channel, height,
  width).  Every slice of the source takes the batch and channel axes in full, so a
  tensor is modelled by its two spatial extents and the value at every pixel; a value
  of type \<open>'a\<close> stands for the batch-and-channel vector of the pixel.  Only the
  values at \<open>y < t_height\<close>, \<open>x < t_width\<close> are contents of the tensor.
\<close>

record 'a tensor =
  t_height :: nat
  t_width :: nat
  t_at :: "nat \<Rightarrow> nat \<Rightarrow> 'a"

text \<open>
  A bound \<open>i\<close> of a Python slice on an axis of length \<open>n\<close>: a negative bound counts
  from the end, and every bound is clamped to \<open>[0, n]\<close>.  The slice \<open>a:b\<close> selects the
  indices from \<open>slice_bound a n\<close> up to (excluding) \<open>slice_bound b n\<close>.
\<close>

definition slice_bound :: "int \<Rightarrow> nat \<Rightarrow> nat" where
  "slice_bound i n = (if i < 0 then nat (max 0 (i + int n)) else min (nat i) n)"

text \<open>\<open>t[:, :, y0:y1, x0:x1]\<close>\<close>

definition tensor_slice :: "'a tensor \<Rightarrow> int \<Rightarrow> int \<Rightarrow> int \<Rightarrow> int \<Rightarrow> 'a tensor" where
  "tensor_slice t y0 y1 x0 x1 =
     (let ly = slice_bound y0 (t_height t); hy = slice_bound y1 (t_height t);
          lx = slice_bound x0 (t_width t); hx = slice_bound x1 (t_width t)
      in \<lparr>t_height = hy - ly, t_width = hx - lx,
          t_at = (\<lambda>y x. t_at t (ly + y) (lx + x))\<rparr>)"

text \<open>
  \<open>dst[:, :, y0:y1, x0:x1] = src\<close>: the source is broadcast to the shape of the
  selected region (an axis of length 1 is repeated); any other mismatch of the shapes
  raises \<open>RuntimeError\<close>.
\<close>

definition tensor_assign ::
  "'a tensor \<Rightarrow> int \<Rightarrow> int \<Rightarrow> int \<Rightarrow> int \<Rightarrow> 'a tensor \<Rightarrow> error + 'a tensor" where
  "tensor_assign dst y0 y1 x0 x1 src =
     (let ly = slice_bound y0 (t_height dst); hy = slice_bound y1 (t_height dst);
          lx = slice_bound x0 (t_width dst); hx = slice_bound x1 (t_width dst)
      in if (t_height src = hy - ly \<or> t_height src = 1) \<and> (t_width src = hx - lx \<or> t_width src = 1)
         then Inr (dst\<lparr>t_at := (\<lambda>y x.
                if ly \<le> y \<and> y < hy \<and> lx \<le> x \<and> x < hx
                then t_at src (if t_height src = 1 then 0 else y - ly)
                              (if t_width src = 1 then 0 else x - lx)
                else t_at dst y x)\<rparr>)
         else Inl RuntimeError)"

text \<open>\<open>new_zeros\<close>: a negative extent raises \<open>RuntimeError\<close>.\<close>

definition new_zeros :: "int \<Rightarrow> int \<Rightarrow> error + ('a::zero) tensor" where
  "new_zeros h w =
     (if h < 0 \<or> w < 0 then Inl RuntimeError
      else Inr \<lparr>t_height = nat h, t_width = nat w, t_at = (\<lambda>y x. 0)\<rparr>)"

subsection \<open>The instance\<close>

text \<open>
  What the instance does that can be observed from outside, in order: the tensors
  handed to the inference backend and the lines printed.
\<close>

datatype 'a event =
    NetCall "'a tensor"
  | PrintError error
  | PrintTile int int
  | PrintInput16

text \<open>
  The fields of a \<open>RealESRGANer\<close> that the methods below read or write.  \<open>net_g\<close> is
  the network: it returns the upscaled tensor or raises; \<open>ort_session_run\<close> and
  \<open>triton_infer\<close> are the inference calls of the \<open>onnx\<close> and the \<open>triton\<close> backend
  (\<open>self.ort_session.run\<close>, \<open>self.triton_client.infer\<close>).  \<open>mod_pad_h\<close> and
  \<open>mod_pad_w\<close> exist on the object only once \<open>pre_process\<close> has set them, and are read
  only when \<open>mod_scale\<close> is set, which \<open>pre_process\<close> does at the same time.
  The field \<open>output'\<close> is \<open>self.output\<close>.
\<close>

record 'a esrganer =
  scale :: int
  tile_size :: int
  tile_pad :: int
  pre_pad :: int
  mod_scale :: "int option"
  mod_pad_h :: int
  mod_pad_w :: int
  backend :: string
  outscale :: "real option"
  net_g :: "'a tensor \<Rightarrow> error + 'a tensor"
  ort_session_run :: "'a tensor \<Rightarrow> error + 'a tensor"
  triton_infer :: "'a tensor \<Rightarrow> error + 'a tensor"
  img :: "'a tensor"
  output' :: "'a tensor"
  trace :: "'a event list"

subsection \<open>Padding before inference (\<open>RealESRGANer.pre_process\<close>)\<close>

text \<open>
  \<open>F.pad(t, (0, pad_right, 0, pad_bottom), "reflect")\<close>: the tensor grows on the right
  and at the bottom by mirror images of its last columns and rows (the border itself is
  not repeated).  Reflection needs a non-empty tensor and a pad smaller than the extent
  it mirrors, otherwise the call raises \<open>RuntimeError\<close>.  A negative pad crops; the
  model lets such a call succeed when at least one row and one column are left.
\<close>

definition reflect_index :: "nat \<Rightarrow> nat \<Rightarrow> nat" where
  "reflect_index i n = (if i < n then i else 2 * n - 2 - i)"

definition pad_reflect :: "'a tensor \<Rightarrow> int \<Rightarrow> int \<Rightarrow> error + 'a tensor" where
  "pad_reflect t pad_right pad_bottom =
     (let h = int (t_height t); w = int (t_width t)
      in if 0 < h \<and> 0 < w \<and> pad_right < w \<and> pad_bottom < h
            \<and> 1 \<le> w + pad_right \<and> 1 \<le> h + pad_bottom
         then Inr \<lparr>t_height = nat (h + pad_bottom), t_width = nat (w + pad_right),
                   t_at = (\<lambda>y x. t_at t (reflect_index y (t_height t))
                                         (reflect_index x (t_width t)))\<rparr>
         else Inl RuntimeError)"

text \<open>
  \<open>pre_process\<close> stores the image in \<open>self.img\<close> (the transposition to
  channel-first layout and the conversion to \<open>float\<close> or \<open>half\<close> do not move any
  pixel and are not modelled), pads it by \<open>pre_pad\<close>, sets \<open>mod_scale\<close> from the scale
  (2 for scale 2, 4 for scale 1, unchanged otherwise) and, when \<open>mod_scale\<close> is set,
  pads height and width up to the next multiple of it.  \<open>mod_scale\<close> is \<open>None\<close> on a
  new instance and is assigned nowhere else.
\<close>

definition pre_pad_step :: "'a esrganer \<Rightarrow> error option \<times> 'a esrganer" where
  "pre_pad_step self =
     (if pre_pad self \<noteq> 0
      then (case pad_reflect (img self) (pre_pad self) (pre_pad self) of
              Inl e \<Rightarrow> (Some e, self)
            | Inr padded \<Rightarrow> (None, self\<lparr>img := padded\<rparr>))
      else (None, self))"

definition set_mod_scale :: "'a esrganer \<Rightarrow> 'a esrganer" where
  "set_mod_scale self =
     (if scale self = 2 then self\<lparr>mod_scale := Some 2\<rparr>
      else if scale self = 1 then self\<lparr>mod_scale := Some 4\<rparr>
      else self)"

definition mod_pad_step :: "'a esrganer \<Rightarrow> error option \<times> 'a esrganer" where
  "mod_pad_step self =
     (case mod_scale self of
        None \<Rightarrow> (None, self)
      | Some m \<Rightarrow>
          let self1 = self\<lparr>mod_pad_h := 0, mod_pad_w := 0\<rparr>;
              h = int (t_height (img self1));
              w = int (t_width (img self1))
          in if m = 0 then (Some ZeroDivisionError, self1)
             else
               let self2 = (if h mod m \<noteq> 0 then self1\<lparr>mod_pad_h := m - h mod m\<rparr> else self1);
                   self3 = (if w mod m \<noteq> 0 then self2\<lparr>mod_pad_w := m - w mod m\<rparr> else self2)
               in case pad_reflect (img self3) (mod_pad_w self3) (mod_pad_h self3) of
                    Inl e \<Rightarrow> (Some e, self3)
                  | Inr padded \<Rightarrow> (None, self3\<lparr>img := padded\<rparr>))"

definition pre_process :: "'a esrganer \<Rightarrow> 'a tensor \<Rightarrow> error option \<times> 'a esrganer" where
  "pre_process self inp =
     (case pre_pad_step (self\<lparr>img := inp\<rparr>) of
        (Some e, self1) \<Rightarrow> (Some e, self1)
      | (None, self1) \<Rightarrow> mod_pad_step (set_mod_scale self1))"

subsection \<open>Tiled inference (\<open>RealESRGANer.tile_process\<close>)\<close>

text \<open>The variables of one iteration of the tile loop, under their names in the source.\<close>

record tile =
  input_start_x :: int
  input_end_x :: int
  input_start_y :: int
  input_end_y :: int
  input_start_x_pad :: int
  input_end_x_pad :: int
  input_start_y_pad :: int
  input_end_y_pad :: int
  input_tile_width :: int
  input_tile_height :: int
  tile_idx :: int
  output_start_x :: int
  output_end_x :: int
  output_start_y :: int
  output_end_y :: int
  output_start_x_tile :: int
  output_end_x_tile :: int
  output_start_y_tile :: int
  output_end_y_tile :: int

definition tile_vars :: "int \<Rightarrow> int \<Rightarrow> int \<Rightarrow> int \<Rightarrow> int \<Rightarrow> int \<Rightarrow> int \<Rightarrow> int \<Rightarrow> tile" where
  "tile_vars tile_size' tile_pad' scale' height width tiles_x y x =
     (let ofs_x = x * tile_size';
          ofs_y = y * tile_size';
          isx = ofs_x;
          iex = min (ofs_x + tile_size') width;
          isy = ofs_y;
          iey = min (ofs_y + tile_size') height;
          isxp = max (isx - tile_pad') 0;
          iexp = min (iex + tile_pad') width;
          isyp = max (isy - tile_pad') 0;
          ieyp = min (iey + tile_pad') height;
          itw = iex - isx;
          ith = iey - isy;
          osxt = (isx - isxp) * scale';
          osyt = (isy - isyp) * scale'
      in \<lparr>input_start_x = isx, input_end_x = iex, input_start_y = isy, input_end_y = iey,
          input_start_x_pad = isxp, input_end_x_pad = iexp,
          input_start_y_pad = isyp, input_end_y_pad = ieyp,
          input_tile_width = itw, input_tile_height = ith,
          tile_idx = y * tiles_x + x + 1,
          output_start_x = isx * scale', output_end_x = iex * scale',
          output_start_y = isy * scale', output_end_y = iey * scale',
          output_start_x_tile = osxt, output_end_x_tile = osxt + itw * scale',
          output_start_y_tile = osyt, output_end_y_tile = osyt + ith * scale'\<rparr>)"

text \<open>\<open>range(n)\<close>, and the pairs \<open>(y, x)\<close> in the order of the two nested loops.\<close>

definition py_range :: "int \<Rightarrow> int list" where
  "py_range n = [0..n - 1]"

definition tile_coords :: "int \<Rightarrow> int \<Rightarrow> (int \<times> int) list" where
  "tile_coords tiles_y tiles_x =
     concat (map (\<lambda>y. map (\<lambda>x. (y, x)) (py_range tiles_x)) (py_range tiles_y))"

text \<open>
  \<open>except RuntimeError\<close> also catches the subclasses of \<open>RuntimeError\<close>, of which
  \<open>NotImplementedError\<close> is one.
\<close>

definition is_RuntimeError :: "error \<Rightarrow> bool" where
  "is_RuntimeError e = (e = RuntimeError \<or> e = NotImplementedError)"

text \<open>
  One iteration of the loop body (lines 281-335).  The loop carries the instance and the
  local variable \<open>output_tile\<close>, which is unbound (\<open>None\<close>) until the network has
  returned once.  A \<open>RuntimeError\<close> of the network is caught and printed, and the body
  goes on to the copy; reading \<open>output_tile\<close> while it is unbound raises
  \<open>UnboundLocalError\<close>.  The first component of the result is the exception that leaves
  the body, if any.
\<close>

definition tile_step ::
  "int \<Rightarrow> int \<Rightarrow> int \<Rightarrow> int \<Rightarrow> int \<times> int \<Rightarrow> 'a esrganer \<times> 'a tensor option
    \<Rightarrow> error option \<times> 'a esrganer \<times> 'a tensor option" where
  "tile_step height width tiles_x tiles_y yx st =
     (case (yx, st) of ((y, x), (self, output_tile)) \<Rightarrow>
      let t = tile_vars (tile_size self) (tile_pad self) (scale self) height width tiles_x y x;
          input_tile = tensor_slice (img self) (input_start_y_pad t) (input_end_y_pad t)
                         (input_start_x_pad t) (input_end_x_pad t);
          self1 = self\<lparr>trace := trace self @ [NetCall input_tile]\<rparr>
      in case net_g self input_tile of
           Inl e \<Rightarrow>
             if is_RuntimeError e
             then let self2 = self1\<lparr>trace := trace self1 @
                                 [PrintError e, PrintTile (tile_idx t) (tiles_x * tiles_y)]\<rparr>
                  in (case output_tile of
                        None \<Rightarrow> (Some UnboundLocalError, self2, output_tile)
                      | Some ot \<Rightarrow>
                          (case tensor_assign (output' self2) (output_start_y t) (output_end_y t)
                                  (output_start_x t) (output_end_x t)
                                  (tensor_slice ot (output_start_y_tile t) (output_end_y_tile t)
                                     (output_start_x_tile t) (output_end_x_tile t)) of
                             Inl e' \<Rightarrow> (Some e', self2, output_tile)
                           | Inr out \<Rightarrow> (None, self2\<lparr>output' := out\<rparr>, output_tile)))
             else (Some e, self1, output_tile)
         | Inr ot \<Rightarrow>
             let self2 = self1\<lparr>trace := trace self1 @ [PrintTile (tile_idx t) (tiles_x * tiles_y)]\<rparr>
             in (case tensor_assign (output' self2) (output_start_y t) (output_end_y t)
                        (output_start_x t) (output_end_x t)
                        (tensor_slice ot (output_start_y_tile t) (output_end_y_tile t)
                           (output_start_x_tile t) (output_end_x_tile t)) of
                   Inl e' \<Rightarrow> (Some e', self2, Some ot)
                 | Inr out \<Rightarrow> (None, self2\<lparr>output' := out\<rparr>, Some ot)))"

fun tile_loop ::
  "int \<Rightarrow> int \<Rightarrow> int \<Rightarrow> int \<Rightarrow> (int \<times> int) list \<Rightarrow> 'a esrganer \<times> 'a tensor option
    \<Rightarrow> error option \<times> 'a esrganer \<times> 'a tensor option" where
  "tile_loop height width tiles_x tiles_y [] st = (None, st)"
| "tile_loop height width tiles_x tiles_y (yx # rest) st =
     (case tile_step height width tiles_x tiles_y yx st of
        (Some e, st') \<Rightarrow> (Some e, st')
      | (None, st') \<Rightarrow> tile_loop height width tiles_x tiles_y rest st')"

text \<open>
  \<open>math.ceil(width / self.tile_size)\<close> is the ceiling of the quotient; the division
  raises \<open>ZeroDivisionError\<close> for a tile size of 0.  (The quotient is a float in the
  source; it is exact here, which agrees for extents below \<open>2^53\<close>.)
\<close>

definition tile_process :: "('a::zero) esrganer \<Rightarrow> error option \<times> 'a esrganer" where
  "tile_process self =
     (if backend self = ''onnx'' \<or> backend self = ''triton''
      then (Some NotImplementedError, self)
      else
        let height = int (t_height (img self));
            width = int (t_width (img self));
            output_height = height * scale self;
            output_width = width * scale self
        in case new_zeros output_height output_width of
             Inl e \<Rightarrow> (Some e, self)
           | Inr z \<Rightarrow>
               let self1 = self\<lparr>output' := z\<rparr>
               in if tile_size self = 0 then (Some ZeroDivisionError, self1)
                  else
                    let tiles_x = \<lceil>real_of_int width / real_of_int (tile_size self)\<rceil>;
                        tiles_y = \<lceil>real_of_int height / real_of_int (tile_size self)\<rceil>
                    in case tile_loop height width tiles_x tiles_y
                              (tile_coords tiles_y tiles_x) (self1, None) of
                         (r, self2, output_tile) \<Rightarrow> (r, self2))"


subsection \<open>Cropping after inference (\<open>RealESRGANer.post_process\<close>)\<close>

text \<open>
  First the alignment pad, then the pre-pad, each times the scale, is cut off
  \<open>self.output\<close> by a slice \<open>0 : extent - pad * scale\<close>.  The method returns
  \<open>self.output\<close>, the field \<open>output'\<close> of the result.
\<close>

definition remove_mod_pad :: "'a esrganer \<Rightarrow> 'a esrganer" where
  "remove_mod_pad self =
     (if mod_scale self \<noteq> None
      then let h = int (t_height (output' self)); w = int (t_width (output' self))
           in self\<lparr>output' := tensor_slice (output' self)
                      0 (h - mod_pad_h self * scale self)
                      0 (w - mod_pad_w self * scale self)\<rparr>
      else self)"

definition remove_pre_pad :: "'a esrganer \<Rightarrow> 'a esrganer" where
  "remove_pre_pad self =
     (if pre_pad self \<noteq> 0
      then let h = int (t_height (output' self)); w = int (t_width (output' self))
           in self\<lparr>output' := tensor_slice (output' self)
                      0 (h - pre_pad self * scale self)
                      0 (w - pre_pad self * scale self)\<rparr>
      else self)"

definition post_process :: "'a esrganer \<Rightarrow> 'a esrganer" where
  "post_process self = remove_pre_pad (remove_mod_pad self)"

text \<open>
  The alignment pad an instance has applied: \<open>mod_pad_h\<close> and \<open>mod_pad_w\<close> count only
  while \<open>mod_scale\<close> is set.
\<close>

definition eff_mod_pad_h :: "'a esrganer \<Rightarrow> int" where
  "eff_mod_pad_h self = (if mod_scale self = None then 0 else mod_pad_h self)"

definition eff_mod_pad_w :: "'a esrganer \<Rightarrow> int" where
  "eff_mod_pad_w self = (if mod_scale self = None then 0 else mod_pad_w self)"

subsection \<open>Padding of a numpy tensor (\<open>RealESRGANer.pre_process_numpy\<close>)\<close>

text \<open>
  \<open>np.pad(t, ((0, 0), (0, 0), (0, pad_bottom), (0, pad_right)), mode="reflect")\<close>.
  Unlike the torch call, numpy reflects as often as the pad needs (the index runs back
  and forth over the axis), repeats the one element of an axis of length 1, and raises
  \<open>ValueError\<close> for a negative pad and for a pad of an empty axis.
\<close>

definition np_reflect_index :: "nat \<Rightarrow> nat \<Rightarrow> nat" where
  "np_reflect_index i n =
     (if n \<le> 1 then 0
      else let p = 2 * (n - 1); m = i mod p in if m < n then m else p - m)"

definition np_pad_reflect :: "'a tensor \<Rightarrow> int \<Rightarrow> int \<Rightarrow> error + 'a tensor" where
  "np_pad_reflect t pad_right pad_bottom =
     (if pad_right < 0 \<or> pad_bottom < 0 then Inl ValueError
      else if (t_height t = 0 \<and> 0 < pad_bottom) \<or> (t_width t = 0 \<and> 0 < pad_right)
      then Inl ValueError
      else Inr \<lparr>t_height = t_height t + nat pad_bottom, t_width = t_width t + nat pad_right,
                t_at = (\<lambda>y x. t_at t (np_reflect_index y (t_height t))
                                      (np_reflect_index x (t_width t)))\<rparr>)"

definition pre_pad_step_numpy :: "'a esrganer \<Rightarrow> error option \<times> 'a esrganer" where
  "pre_pad_step_numpy self =
     (if pre_pad self \<noteq> 0
      then (case np_pad_reflect (img self) (pre_pad self) (pre_pad self) of
              Inl e \<Rightarrow> (Some e, self)
            | Inr padded \<Rightarrow> (None, self\<lparr>img := padded\<rparr>))
      else (None, self))"

definition mod_pad_step_numpy :: "'a esrganer \<Rightarrow> error option \<times> 'a esrganer" where
  "mod_pad_step_numpy self =
     (case mod_scale self of
        None \<Rightarrow> (None, self)
      | Some m \<Rightarrow>
          let self1 = self\<lparr>mod_pad_h := 0, mod_pad_w := 0\<rparr>;
              h = int (t_height (img self1));
              w = int (t_width (img self1))
          in if m = 0 then (Some ZeroDivisionError, self1)
             else
               let self2 = (if h mod m \<noteq> 0 then self1\<lparr>mod_pad_h := m - h mod m\<rparr> else self1);
                   self3 = (if w mod m \<noteq> 0 then self2\<lparr>mod_pad_w := m - w mod m\<rparr> else self2)
               in case np_pad_reflect (img self3) (mod_pad_w self3) (mod_pad_h self3) of
                    Inl e \<Rightarrow> (Some e, self3)
                  | Inr padded \<Rightarrow> (None, self3\<lparr>img := padded\<rparr>))"

definition pre_process_numpy :: "'a esrganer \<Rightarrow> 'a tensor \<Rightarrow> error option \<times> 'a esrganer" where
  "pre_process_numpy self inp =
     (case pre_pad_step_numpy (self\<lparr>img := inp\<rparr>) of
        (Some e, self1) \<Rightarrow> (Some e, self1)
      | (None, self1) \<Rightarrow> mod_pad_step_numpy (set_mod_scale self1))"

subsection \<open>Inference on the whole image (\<open>RealESRGANer.process\<close>)\<close>

text \<open>
  The backend is called on \<open>self.img\<close> and its result stored in \<open>self.output\<close>; an
  exception of the backend propagates, and an unknown backend raises \<open>ValueError\<close>.
\<close>

definition run_backend ::
  "('a tensor \<Rightarrow> error + 'a tensor) \<Rightarrow> 'a esrganer \<Rightarrow> error option \<times> 'a esrganer" where
  "run_backend infer self =
     (let self1 = self\<lparr>trace := trace self @ [NetCall (img self)]\<rparr>
      in case infer (img self) of
           Inl e \<Rightarrow> (Some e, self1)
         | Inr out \<Rightarrow> (None, self1\<lparr>output' := out\<rparr>))"

definition process :: "'a esrganer \<Rightarrow> error option \<times> 'a esrganer" where
  "process self =
     (if backend self = ''torch'' then run_backend (net_g self) self
      else if backend self = ''onnx'' then run_backend (ort_session_run self) self
      else if backend self = ''triton'' then run_backend (triton_infer self) self
      else if backend self = ''huggingface'' then run_backend (net_g self) self
      else (Some ValueError, self))"

subsection \<open>Floating-point numbers\<close>

text \<open>
  A finite floating-point number is modelled by the real number it denotes; infinities
  and NaN have no counterpart.  Every operation of the code on floating-point numbers
  returns the exact result rounded to the format, as IEEE 754 prescribes:
  \<open>float_round p emin x\<close> rounds the real \<open>x\<close> to precision \<open>p\<close>.  With \<open>e\<close> the
  exponent of \<open>x\<close> (\<open>2^e \<le> |x| < 2^(e+1)\<close>) and \<open>q = max (e - (p - 1)) emin\<close>, it is the
  integer multiple of \<open>2^q\<close> nearest to \<open>x\<close>, a tie going to the even multiple;
  \<open>emin\<close> is the exponent of the least subnormal number.  \<open>fl32\<close> rounds to the
  \<open>float32\<close> of numpy (24 bits), \<open>fl64\<close> to the \<open>float\<close> of Python (binary64, 53
  bits).  Where the rounded result has a magnitude of \<open>2^128\<close> (\<open>2^1024\<close> in
  binary64) or more, the code obtains an infinity.
\<close>

text \<open>Rounding to the nearest integer, a tie to the even one (also \<open>round\<close> of numpy).\<close>

definition round_half_even :: "real \<Rightarrow> int" where
  "round_half_even x =
     (let f = \<lfloor>x\<rfloor>; d = x - real_of_int f
      in if d < 1 / 2 then f else if 1 / 2 < d then f + 1 else if even f then f else f + 1)"

text \<open>The exponent of a positive real, from the bit length of an integer.\<close>

definition floor_log2 :: "real \<Rightarrow> int" where
  "floor_log2 x = (if 1 \<le> x then bitlen \<lfloor>x\<rfloor> - 1 else - bitlen (\<lceil>1 / x\<rceil> - 1))"

definition pow2 :: "int \<Rightarrow> real" where
  "pow2 q = (if 0 \<le> q then 2 ^ nat q else 1 / 2 ^ nat (- q))"

definition float_round :: "nat \<Rightarrow> int \<Rightarrow> real \<Rightarrow> real" where
  "float_round p emin x =
     (if x = 0 then 0
      else let q = max (floor_log2 \<bar>x\<bar> - (int p - 1)) emin
           in real_of_int (round_half_even (x / pow2 q)) * pow2 q)"

definition fl32 :: "real \<Rightarrow> real" where
  "fl32 = float_round 24 (- 149)"

definition fl64 :: "real \<Rightarrow> real" where
  "fl64 = float_round 53 (- 1074)"


text \<open>
  \<open>float(n)\<close> of a Python integer is the nearest float and raises \<open>OverflowError\<close>
  when \<open>n\<close> is too large.  \<open>int(x)\<close> of a float truncates towards zero and raises
  \<open>OverflowError\<close> for an infinity.  In \<open>int(n * x)\<close> with an integer \<open>n\<close> and a float
  \<open>x\<close>, Python converts \<open>n\<close> to a float and multiplies the two floats.
\<close>

definition py_float :: "int \<Rightarrow> error + real" where
  "py_float n =
     (let f = fl64 (real_of_int n) in if 2 ^ 1024 \<le> \<bar>f\<bar> then Inl OverflowError else Inr f)"

definition py_int :: "real \<Rightarrow> int" where
  "py_int x = (if 0 \<le> x then \<lfloor>x\<rfloor> else \<lceil>x\<rceil>)"

definition int_of_product :: "nat \<Rightarrow> real \<Rightarrow> error + int" where
  "int_of_product n x =
     (case py_float (int n) of
        Inl e \<Rightarrow> Inl e
      | Inr f \<Rightarrow>
          (let p = fl64 (f * x) in if 2 ^ 1024 \<le> \<bar>p\<bar> then Inl OverflowError else Inr (py_int p)))"

subsection \<open>Pixel arrays\<close>

text \<open>
  A numpy array: its shape and the element at every index.  Elements are real
  numbers; an array of type \<open>float32\<close> holds numbers of \<open>float32\<close>.  The arrays that
  \<open>enhance\<close> handles live in a store, a list of arrays in which a reference is a
  position; a new array is appended.  The caller's image is a reference into the store.
\<close>

record ndarray =
  nd_shape :: "nat list"
  nd_at :: "nat list \<Rightarrow> real"

type_synonym store = "ndarray list"

definition alloc :: "store \<Rightarrow> ndarray \<Rightarrow> store \<times> nat" where
  "alloc H a = (H @ [a], length H)"

text \<open>All indices of an array of a given shape, in row-major order.\<close>

fun indices :: "nat list \<Rightarrow> nat list list" where
  "indices [] = [[]]"
| "indices (n # ns) = concat (map (\<lambda>i. map ((#) i) (indices ns)) [0..<n])"

text \<open>\<open>np.max(a)\<close> raises \<open>ValueError\<close> for an array without elements.\<close>

definition np_max :: "ndarray \<Rightarrow> error + real" where
  "np_max a =
     (case map (nd_at a) (indices (nd_shape a)) of
        [] \<Rightarrow> Inl ValueError
      | v # vs \<Rightarrow> Inr (fold max vs v))"

text \<open>
  \<open>a.astype(np.float32)\<close> is a new array with every value of \<open>a\<close> rounded to
  \<open>float32\<close>.  (A value of magnitude \<open>2^128\<close> or more becomes an infinity in the
  code; an array with such a value is outside this model.)  \<open>a / r\<close>, for an array
  \<open>a\<close> of type \<open>float32\<close> and the Python integer \<open>r\<close>, which is 255 or 65535,
  divides every element in \<open>float32\<close>.
\<close>

definition astype_float32 :: "ndarray \<Rightarrow> ndarray" where
  "astype_float32 a = a\<lparr>nd_at := (\<lambda>i. fl32 (nd_at a i))\<rparr>"

definition np_divide :: "ndarray \<Rightarrow> real \<Rightarrow> ndarray" where
  "np_divide a r = a\<lparr>nd_at := (\<lambda>i. fl32 (nd_at a i / r))\<rparr>"

text \<open>\<open>a[:, :, c]\<close> and \<open>a[:, :, lo:hi]\<close> on an array of at least three axes.\<close>

definition np_channel :: "ndarray \<Rightarrow> nat \<Rightarrow> ndarray" where
  "np_channel a c =
     \<lparr>nd_shape = take 2 (nd_shape a) @ drop 3 (nd_shape a),
      nd_at = (\<lambda>i. nd_at a (take 2 i @ [c] @ drop 2 i))\<rparr>"

definition np_channels :: "ndarray \<Rightarrow> int \<Rightarrow> int \<Rightarrow> ndarray" where
  "np_channels a lo hi =
     (let n = nd_shape a ! 2; l = slice_bound lo n; h = slice_bound hi n
      in \<lparr>nd_shape = take 2 (nd_shape a) @ [h - l] @ drop 3 (nd_shape a),
          nd_at = (\<lambda>i. nd_at a (take 2 i @ [l + i ! 2] @ drop 3 i))\<rparr>)"

text \<open>
  \<open>dst[:, :, c] = src\<close> on an array \<open>dst\<close> of three axes: \<open>src\<close> is broadcast to the
  height and width of \<open>dst\<close> (its axes are aligned from the right, an axis of length 1
  is repeated, additional leading axes must have length 1); otherwise \<open>ValueError\<close>.
\<close>

fun broadcastable :: "nat list \<Rightarrow> nat list \<Rightarrow> bool" where
  "broadcastable [] ds = True"
| "broadcastable (s # ss) [] = (s = 1 \<and> broadcastable ss [])"
| "broadcastable (s # ss) (d # ds) = ((s = d \<or> s = 1) \<and> broadcastable ss ds)"

definition broadcast_index :: "nat list \<Rightarrow> nat list \<Rightarrow> nat list" where
  "broadcast_index src_shape i =
     (let k = length src_shape; n = length i
      in replicate (k - n) 0
           @ map (\<lambda>(d, j). if d = 1 then 0 else j) (zip (drop (k - n) src_shape) (drop (n - k) i)))"

definition np_set_channel :: "ndarray \<Rightarrow> nat \<Rightarrow> ndarray \<Rightarrow> error + ndarray" where
  "np_set_channel dst c src =
     (if length (nd_shape dst) < 3 then Inl IndexError
      else if nd_shape dst ! 2 \<le> c then Inl IndexError
      else if \<not> broadcastable (rev (nd_shape src))
                   (rev (take 2 (nd_shape dst) @ drop 3 (nd_shape dst)))
      then Inl ValueError
      else Inr (dst\<lparr>nd_at := (\<lambda>i. if i ! 2 = c
                   then nd_at src (broadcast_index (nd_shape src) (take 2 i @ drop 3 i))
                   else nd_at dst i)\<rparr>))"

subsection \<open>Library calls of \<open>enhance\<close>\<close>

text \<open>
  The calls into OpenCV, numpy and torch whose results \<open>enhance\<close> only passes on.
  Each returns a new array or raises.
  \<^item> \<open>cvtColor\<close> and \<open>resize\<close> are \<open>cv2.cvtColor\<close> and \<open>cv2.resize\<close>, the latter with
    the target size \<open>(width, height)\<close>.
  \<^item> \<open>to_tensor\<close> is the head of \<open>pre_process\<close> and of \<open>pre_process_numpy\<close>: the
    transposition to channel-first layout, the added batch axis and the conversion to
    the precision and device of the instance.
  \<^item> \<open>clamp01\<close> is \<open>clamp_(0, 1)\<close> or \<open>clip(0, 1)\<close>, and \<open>clamp_shares_output\<close> says
    whether the tensor that torch clamps in place shares its storage with
    \<open>self.output\<close> (it does for a \<open>float32\<close> tensor on the CPU).
  \<^item> \<open>tensor_to_bgr\<close> is \<open>squeeze\<close>, the conversion to a \<open>float32\<close> numpy array and
    \<open>np.transpose(output_img[[2, 1, 0], :, :], (1, 2, 0))\<close>.
  \<^item> \<open>cast_out_of_range bits x\<close> is what \<open>astype\<close> makes of a number \<open>x\<close> that
    the unsigned integer type of \<open>bits\<close> bits cannot hold.  C leaves this conversion
    undefined, and the result depends on the platform.
\<close>

datatype cvcode = COLOR_GRAY2RGB | COLOR_BGR2RGB | COLOR_BGR2GRAY | COLOR_BGR2BGRA

datatype interpolation = INTER_LINEAR | INTER_LANCZOS4

record 'a lib =
  cvtColor :: "cvcode \<Rightarrow> ndarray \<Rightarrow> error + ndarray"
  resize :: "ndarray \<Rightarrow> int \<times> int \<Rightarrow> interpolation \<Rightarrow> error + ndarray"
  to_tensor :: "ndarray \<Rightarrow> error + 'a tensor"
  clamp01 :: "'a tensor \<Rightarrow> 'a tensor"
  clamp_shares_output :: bool
  tensor_to_bgr :: "'a tensor \<Rightarrow> error + ndarray"
  cast_out_of_range :: "nat \<Rightarrow> int \<Rightarrow> int"

text \<open>
  \<open>astype(np.uint8)\<close> and \<open>astype(np.uint16)\<close> of a rounded number: an integer in the
  range of the type is kept; of the conversion of any other number the model knows
  only that its result is a value of the type.
\<close>

definition astype_uint :: "'a lib \<Rightarrow> nat \<Rightarrow> int \<Rightarrow> int" where
  "astype_uint lib bits v =
     (if 0 \<le> v \<and> v < 2 ^ bits then v else cast_out_of_range lib bits v mod 2 ^ bits)"

text \<open>
  Lines 463-466: \<open>(output_img * 65535.0).round().astype(np.uint16)\<close>, or with \<open>255.0\<close>
  and \<open>np.uint8\<close>.  \<open>output_img\<close> is an array of type \<open>float32\<close>, and numpy
  multiplies it by the Python float in \<open>float32\<close>; \<open>round\<close> rounds the product to
  an integer.  (A product that is infinite in the code is out of the range of the
  target type, as it is here.)
\<close>

definition requantize :: "'a lib \<Rightarrow> int \<Rightarrow> ndarray \<Rightarrow> ndarray" where
  "requantize lib max_range output_img =
     (if max_range = 65535
      then output_img\<lparr>nd_at := (\<lambda>i. real_of_int
              (astype_uint lib 16 (round_half_even (fl32 (nd_at output_img i * 65535)))))\<rparr>
      else output_img\<lparr>nd_at := (\<lambda>i. real_of_int
              (astype_uint lib 8 (round_half_even (fl32 (nd_at output_img i * 255)))))\<rparr>)"

subsection \<open>The per-image pipeline (\<open>RealESRGANer.enhance\<close>)\<close>

text \<open>
  Lines 360-368.  The shape of the caller's array is unpacked (\<open>ValueError\<close> for fewer
  than two axes), a \<open>float32\<close> copy is made, its maximum decides the range, and the
  copy divided by the range is a third array.  The result is the input height and
  width, \<open>max_range\<close> and the reference of the normalised array.
\<close>

definition enhance_input ::
  "'a esrganer \<Rightarrow> store \<Rightarrow> nat \<Rightarrow> (error + nat \<times> nat \<times> int \<times> nat) \<times> 'a esrganer \<times> store" where
  "enhance_input self H img_ref =
     (case nd_shape (H ! img_ref) of
        h_input # w_input # rest \<Rightarrow>
          (case alloc H (astype_float32 (H ! img_ref)) of
             (H1, img1) \<Rightarrow>
               (case np_max (H1 ! img1) of
                  Inl e \<Rightarrow> (Inl e, self, H1)
                | Inr m \<Rightarrow>
                    let max_range = (if 256 < m then 65535 else 255);
                        self1 = (if 256 < m then self\<lparr>trace := trace self @ [PrintInput16]\<rparr>
                                 else self)
                    in (case alloc H1 (np_divide (H1 ! img1) (real_of_int max_range)) of
                          (H2, img2) \<Rightarrow> (Inr (h_input, w_input, max_range, img2), self1, H2))))
      | _ \<Rightarrow> (Inl ValueError, self, H))"

text \<open>
  Lines 369-381: the colour mode.  The result is \<open>img_mode\<close>, the reference of the RGB
  image and the local variable \<open>alpha\<close>, which is bound only for an RGBA input.
  (\<open>img.shape[2]\<close> raises \<open>IndexError\<close> on an array with fewer than three axes.)  The
  two slices of the RGBA branch are views in numpy; nothing is written through them,
  and they are arrays of their own here.
\<close>

definition enhance_mode ::
  "'a lib \<Rightarrow> store \<Rightarrow> nat \<Rightarrow> string \<Rightarrow> (error + string \<times> nat \<times> nat option) \<times> store" where
  "enhance_mode lib H img_ref alpha_upsampler =
     (if length (nd_shape (H ! img_ref)) = 2
      then (case cvtColor lib COLOR_GRAY2RGB (H ! img_ref) of
              Inl e \<Rightarrow> (Inl e, H)
            | Inr rgb \<Rightarrow> (case alloc H rgb of (H1, img1) \<Rightarrow> (Inr (''L'', img1, None), H1)))
      else if list_get (nd_shape (H ! img_ref)) 2 = Inl IndexError then (Inl IndexError, H)
      else if list_get (nd_shape (H ! img_ref)) 2 = Inr 4
      then (case alloc H (np_channel (H ! img_ref) 3) of
              (H1, alpha) \<Rightarrow>
                (case alloc H1 (np_channels (H1 ! img_ref) 0 3) of
                   (H2, bgr) \<Rightarrow>
                     (case cvtColor lib COLOR_BGR2RGB (H2 ! bgr) of
                        Inl e \<Rightarrow> (Inl e, H2)
                      | Inr rgb \<Rightarrow>
                          (case alloc H2 rgb of
                             (H3, img1) \<Rightarrow>
                               if alpha_upsampler = ''realesrgan''
                               then (case cvtColor lib COLOR_GRAY2RGB (H3 ! alpha) of
                                       Inl e \<Rightarrow> (Inl e, H3)
                                     | Inr a3 \<Rightarrow>
                                         (case alloc H3 a3 of
                                            (H4, alpha1) \<Rightarrow> (Inr (''RGBA'', img1, Some alpha1), H4)))
                               else (Inr (''RGBA'', img1, Some alpha), H3)))))
      else (case cvtColor lib COLOR_BGR2RGB (H ! img_ref) of
              Inl e \<Rightarrow> (Inl e, H)
            | Inr rgb \<Rightarrow> (case alloc H rgb of (H1, img1) \<Rightarrow> (Inr (''RGB'', img1, None), H1))))"

text \<open>
  Lines 384-393 and 418-427: \<open>pre_process\<close> or \<open>pre_process_numpy\<close>, by backend.
\<close>

definition pre_process_dispatch ::
  "'a lib \<Rightarrow> 'a esrganer \<Rightarrow> ndarray \<Rightarrow> error option \<times> 'a esrganer" where
  "pre_process_dispatch lib self a =
     (if backend self = ''torch'' \<or> backend self = ''huggingface''
      then (case to_tensor lib a of Inl e \<Rightarrow> (Some e, self) | Inr t \<Rightarrow> pre_process self t)
      else if backend self = ''onnx'' \<or> backend self = ''triton''
      then (case to_tensor lib a of Inl e \<Rightarrow> (Some e, self) | Inr t \<Rightarrow> pre_process_numpy self t)
      else (Some ValueError, self))"

text \<open>
  Lines 401-411 and 435-448: the clamped output tensor as a BGR array.  The torch
  backends clamp in place, the numpy backends clamp a copy.
\<close>

definition output_to_bgr ::
  "'a lib \<Rightarrow> 'a esrganer \<Rightarrow> (error + ndarray) \<times> 'a esrganer" where
  "output_to_bgr lib self =
     (if backend self = ''torch'' \<or> backend self = ''huggingface''
      then (let clamped = clamp01 lib (output' self);
                self1 = (if clamp_shares_output lib then self\<lparr>output' := clamped\<rparr> else self)
            in (tensor_to_bgr lib clamped, self1))
      else if backend self = ''onnx'' \<or> backend self = ''triton''
      then (tensor_to_bgr lib (clamp01 lib (output' self)), self)
      else (Inl ValueError, self))"

text \<open>
  One pass through the network (lines 384-411 for the image, 418-448 for the alpha
  channel): padding, tiled or direct inference, cropping, conversion to a BGR array.
\<close>

definition infer_pass ::
  "'a lib \<Rightarrow> ('a::zero) esrganer \<Rightarrow> store \<Rightarrow> nat \<Rightarrow> (error + nat) \<times> 'a esrganer \<times> store" where
  "infer_pass lib self H img_ref =
     (case pre_process_dispatch lib self (H ! img_ref) of
        (Some e, self1) \<Rightarrow> (Inl e, self1, H)
      | (None, self1) \<Rightarrow>
          (case (if 0 < tile_size self1 then tile_process self1 else process self1) of
             (Some e, self2) \<Rightarrow> (Inl e, self2, H)
           | (None, self2) \<Rightarrow>
               (case output_to_bgr lib (post_process self2) of
                  (Inl e, self3) \<Rightarrow> (Inl e, self3, H)
                | (Inr bgr, self3) \<Rightarrow>
                    (case alloc H bgr of (H1, output_img) \<Rightarrow> (Inr output_img, self3, H1)))))"

text \<open>\<open>cv2.cvtColor\<close> of an array of the store into a new array.\<close>

definition convert :: "'a lib \<Rightarrow> cvcode \<Rightarrow> store \<Rightarrow> nat \<Rightarrow> (error + nat) \<times> store" where
  "convert lib code H r =
     (case cvtColor lib code (H ! r) of
        Inl e \<Rightarrow> (Inl e, H)
      | Inr a \<Rightarrow> (case alloc H a of (H1, r1) \<Rightarrow> (Inr r1, H1)))"

text \<open>
  Lines 416-460: the alpha channel of an RGBA input, upscaled by the network or by
  \<open>cv2.resize\<close>, and merged: \<open>output_img\<close> becomes a new BGRA array whose fourth channel
  is then overwritten in place.
\<close>

definition upscale_alpha ::
  "'a lib \<Rightarrow> ('a::zero) esrganer \<Rightarrow> store \<Rightarrow> nat \<Rightarrow> string \<Rightarrow> (error + nat) \<times> 'a esrganer \<times> store" where
  "upscale_alpha lib self H alpha alpha_upsampler =
     (if alpha_upsampler = ''realesrgan''
      then (case infer_pass lib self H alpha of
              (Inl e, self1, H1) \<Rightarrow> (Inl e, self1, H1)
            | (Inr output_alpha, self1, H1) \<Rightarrow>
                (case convert lib COLOR_BGR2GRAY H1 output_alpha of
                   (r, H2) \<Rightarrow> (r, self1, H2)))
      else (case nd_shape (H ! alpha) of
              h # w # rest \<Rightarrow>
                (case resize lib (H ! alpha) (int w * scale self, int h * scale self) INTER_LINEAR of
                   Inl e \<Rightarrow> (Inl e, self, H)
                 | Inr a \<Rightarrow> (case alloc H a of (H1, output_alpha) \<Rightarrow> (Inr output_alpha, self, H1)))
            | _ \<Rightarrow> (Inl ValueError, self, H)))"

definition merge_alpha ::
  "'a lib \<Rightarrow> store \<Rightarrow> nat \<Rightarrow> nat \<Rightarrow> (error + nat) \<times> store" where
  "merge_alpha lib H output_img output_alpha =
     (case convert lib COLOR_BGR2BGRA H output_img of
        (Inl e, H1) \<Rightarrow> (Inl e, H1)
      | (Inr bgra, H1) \<Rightarrow>
          (case np_set_channel (H1 ! bgra) 3 (H1 ! output_alpha) of
             Inl e \<Rightarrow> (Inl e, H1)
           | Inr written \<Rightarrow> (Inr bgra, H1[bgra := written])))"

definition enhance_alpha ::
  "'a lib \<Rightarrow> ('a::zero) esrganer \<Rightarrow> store \<Rightarrow> string \<Rightarrow> nat option \<Rightarrow> nat \<Rightarrow> string
    \<Rightarrow> (error + nat) \<times> 'a esrganer \<times> store" where
  "enhance_alpha lib self H img_mode alpha output_img alpha_upsampler =
     (if img_mode = ''RGBA''
      then (case alpha of
              None \<Rightarrow> (Inl UnboundLocalError, self, H)
            | Some alpha_ref \<Rightarrow>
                (case upscale_alpha lib self H alpha_ref alpha_upsampler of
                   (Inl e, self1, H1) \<Rightarrow> (Inl e, self1, H1)
                 | (Inr output_alpha, self1, H1) \<Rightarrow>
                     (case merge_alpha lib H1 output_img output_alpha of
                        (r, H2) \<Rightarrow> (r, self1, H2))))
      else (Inr output_img, self, H))"

text \<open>
  Lines 383-460: the network output as a BGR array, converted to gray for a gray
  input, and merged with the alpha channel for an RGBA input.
\<close>

definition enhance_output ::
  "'a lib \<Rightarrow> ('a::zero) esrganer \<Rightarrow> store \<Rightarrow> string \<Rightarrow> string \<Rightarrow> nat \<Rightarrow> nat option
    \<Rightarrow> (error + nat) \<times> 'a esrganer \<times> store" where
  "enhance_output lib self H alpha_upsampler img_mode img_ref alpha =
     (case infer_pass lib self H img_ref of
        (Inl e, self1, H1) \<Rightarrow> (Inl e, self1, H1)
      | (Inr bgr, self1, H1) \<Rightarrow>
          (case (if img_mode = ''L'' then convert lib COLOR_BGR2GRAY H1 bgr else (Inr bgr, H1)) of
             (Inl e, H2) \<Rightarrow> (Inl e, self1, H2)
           | (Inr output_img, H2) \<Rightarrow>
               enhance_alpha lib self1 H2 img_mode alpha output_img alpha_upsampler))"

text \<open>
  Lines 463-476: the output is quantised to the range of the input and, when
  \<open>outscale\<close> is set and differs from \<open>float(self.scale)\<close>, resized to
  \<open>(int(w_input * outscale), int(h_input * outscale))\<close>.  \<open>outscale\<close> is a float.
\<close>

definition enhance_finish ::
  "'a lib \<Rightarrow> 'a esrganer \<Rightarrow> store \<Rightarrow> nat \<Rightarrow> int \<Rightarrow> nat \<Rightarrow> nat \<Rightarrow> (error + nat) \<times> store" where
  "enhance_finish lib self H output_img max_range h_input w_input =
     (case alloc H (requantize lib max_range (H ! output_img)) of
        (H1, output) \<Rightarrow>
          (case outscale self of
             None \<Rightarrow> (Inr output, H1)
           | Some r \<Rightarrow>
               (case py_float (scale self) of
                  Inl e \<Rightarrow> (Inl e, H1)
                | Inr s \<Rightarrow>
                    if r \<noteq> s
                    then (case int_of_product w_input r of
                            Inl e \<Rightarrow> (Inl e, H1)
                          | Inr w \<Rightarrow>
                              (case int_of_product h_input r of
                                 Inl e \<Rightarrow> (Inl e, H1)
                               | Inr h \<Rightarrow>
                                   (case resize lib (H1 ! output) (w, h) INTER_LANCZOS4 of
                                      Inl e \<Rightarrow> (Inl e, H1)
                                    | Inr a \<Rightarrow>
                                        (case alloc H1 a of
                                           (H2, resized) \<Rightarrow> (Inr resized, H2)))))
                    else (Inr output, H1))))"

text \<open>Lines 383-478, after the input has been normalised and its mode detected.\<close>

definition enhance_body ::
  "'a lib \<Rightarrow> ('a::zero) esrganer \<Rightarrow> store \<Rightarrow> string \<Rightarrow> nat \<Rightarrow> nat \<Rightarrow> int
    \<Rightarrow> string \<Rightarrow> nat \<Rightarrow> nat option \<Rightarrow> (error + nat \<times> string) \<times> 'a esrganer \<times> store" where
  "enhance_body lib self H alpha_upsampler h_input w_input max_range img_mode img_ref alpha =
     (case enhance_output lib self H alpha_upsampler img_mode img_ref alpha of
        (Inl e, self2, H3) \<Rightarrow> (Inl e, self2, H3)
      | (Inr output_img, self2, H3) \<Rightarrow>
          (case enhance_finish lib self2 H3 output_img max_range h_input w_input of
             (Inl e, H4) \<Rightarrow> (Inl e, self2, H4)
           | (Inr output, H4) \<Rightarrow> (Inr (output, img_mode), self2, H4)))"

text \<open>
  \<open>enhance(img, alpha_upsampler)\<close>: the caller's image is the array at \<open>img_ref\<close>.
  The result is the reference of the output array with the colour mode, or the
  exception raised, together with the instance and the store after the call.
\<close>

definition enhance ::
  "'a lib \<Rightarrow> ('a::zero) esrganer \<Rightarrow> store \<Rightarrow> nat \<Rightarrow> string
    \<Rightarrow> (error + nat \<times> string) \<times> 'a esrganer \<times> store" where
  "enhance lib self H img_ref alpha_upsampler =
     (case enhance_input self H img_ref of
        (Inl e, self1, H1) \<Rightarrow> (Inl e, self1, H1)
      | (Inr (h_input, w_input, max_range, img1), self1, H1) \<Rightarrow>
          (case enhance_mode lib H1 img1 alpha_upsampler of
             (Inl e, H2) \<Rightarrow> (Inl e, self1, H2)
           | (Inr (img_mode, img2, alpha), H2) \<Rightarrow>
               enhance_body lib self1 H2 alpha_upsampler h_input w_input max_range
                 img_mode img2 alpha))"

subsection \<open>Example instances\<close>

text \<open>
  A network that raises \<open>RuntimeError\<close> on a tile whose first pixel is 9 and returns
  every other tile unchanged (a network of scale 1), a one-row image of two pixels, and
  an instance that processes it in tiles of one pixel.
\<close>

definition faulty_net :: "int tensor \<Rightarrow> error + int tensor" where
  "faulty_net t = (if t_at t 0 0 = 9 then Inl RuntimeError else Inr t)"

definition two_pixel_img :: "int \<Rightarrow> int \<Rightarrow> int tensor" where
  "two_pixel_img a b = \<lparr>t_height = 1, t_width = 2, t_at = (\<lambda>y x. if x = 0 then a else b)\<rparr>"

definition empty_tensor :: "int tensor" where
  "empty_tensor = \<lparr>t_height = 0, t_width = 0, t_at = (\<lambda>y x. 0)\<rparr>"

definition tile_fault_instance :: "int \<Rightarrow> int \<Rightarrow> int esrganer" where
  "tile_fault_instance a b =
     \<lparr>scale = 1, tile_size = 1, tile_pad = 0, pre_pad = 0, mod_scale = None,
      mod_pad_h = 0, mod_pad_w = 0, backend = ''torch'', outscale = None,
      net_g = faulty_net, ort_session_run = faulty_net, triton_infer = faulty_net,
      img = two_pixel_img a b, output' = empty_tensor, trace = []\<rparr>"

text \<open>The printed lines of a trace.\<close>

definition printed :: "'a event list \<Rightarrow> 'a event list" where
  "printed evs = filter (\<lambda>e. case e of NetCall t \<Rightarrow> False | _ \<Rightarrow> True) evs"

subsection \<open>The prefetch pipeline (\<open>PrefetchReader\<close>)\<close>

text \<open>
  The reader is a thread whose \<open>run\<close> reads the paths of \<open>img_list\<close> in order, puts
  every result of \<open>cv2.imread\<close> on the queue \<open>self.que\<close> and finally puts \<open>None\<close>;
  \<open>__next__\<close> takes the oldest item off the queue, raises \<open>StopIteration\<close> when
  the item is \<open>None\<close> and returns it otherwise.  \<open>cv2.imread\<close> is a parameter; like
  every Python call it may return \<open>None\<close>, which it does for a file it cannot decode.

  The state of the pipeline: the paths the loop of \<open>run\<close> has not reached, whether
  \<open>run\<close> has returned, the queue (oldest item first), every item put so far, the
  items \<open>__next__\<close> has returned, and whether it has raised \<open>StopIteration\<close>, which
  ends the iteration over the reader.
\<close>

record ('p, 'i) prefetch =
  todo :: "'p list"
  producer_done :: bool
  que :: "'i option list"
  pushed :: "'i option list"
  yielded :: "'i list"
  stopped :: bool

text \<open>\<open>queue.Queue(maxsize)\<close> is bounded when \<open>maxsize\<close> is positive; \<open>put\<close> blocks while it is full.\<close>

definition queue_full :: "int \<Rightarrow> 'a list \<Rightarrow> bool" where
  "queue_full maxsize q = (0 < maxsize \<and> maxsize \<le> int (length q))"

definition prefetch_init :: "'p list \<Rightarrow> ('p, 'i) prefetch" where
  "prefetch_init img_list =
     \<lparr>todo = img_list, producer_done = False, que = [], pushed = [], yielded = [],
      stopped = False\<rparr>"

text \<open>
  One step of either thread.  The producer's \<open>put\<close> can run when the queue is not
  full, the consumer's \<open>get\<close> when it is not empty; the two threads interleave freely.
\<close>

inductive prefetch_step ::
  "('p \<Rightarrow> 'i option) \<Rightarrow> int \<Rightarrow> ('p, 'i) prefetch \<Rightarrow> ('p, 'i) prefetch \<Rightarrow> bool"
  for imread :: "'p \<Rightarrow> 'i option" and maxsize :: int where
  put_img:
    "todo s = img_path # rest \<Longrightarrow> \<not> queue_full maxsize (que s) \<Longrightarrow>
     prefetch_step imread maxsize s
       (s\<lparr>todo := rest, que := que s @ [imread img_path], pushed := pushed s @ [imread img_path]\<rparr>)"
| put_sentinel:
    "todo s = [] \<Longrightarrow> \<not> producer_done s \<Longrightarrow> \<not> queue_full maxsize (que s) \<Longrightarrow>
     prefetch_step imread maxsize s
       (s\<lparr>producer_done := True, que := que s @ [None], pushed := pushed s @ [None]\<rparr>)"
| next_item:
    "que s = Some next_item # q \<Longrightarrow> \<not> stopped s \<Longrightarrow>
     prefetch_step imread maxsize s (s\<lparr>que := q, yielded := yielded s @ [next_item]\<rparr>)"
| next_stop:
    "que s = None # q \<Longrightarrow> \<not> stopped s \<Longrightarrow>
     prefetch_step imread maxsize s (s\<lparr>que := q, stopped := True\<rparr>)"

code_pred prefetch_step .

text \<open>A bound on the number of steps that are left.\<close>

definition prefetch_measure :: "('p, 'i) prefetch \<Rightarrow> nat" where
  "prefetch_measure s =
     2 * length (todo s) + (if producer_done s then 0 else 2) + length (que s)
       + (if stopped s then 0 else 1)"

text \<open>
  What holds in every state of a run: the items put so far are the images of the paths
  already read, in order, followed by the sentinel once \<open>run\<close> has returned; and they
  are the items returned, the stop, and the queue.
\<close>

definition prefetch_inv :: "('p \<Rightarrow> 'i option) \<Rightarrow> 'p list \<Rightarrow> ('p, 'i) prefetch \<Rightarrow> bool" where
  "prefetch_inv imread img_list s =
     ((\<exists>done. img_list = done @ todo s
          \<and> pushed s = map imread done @ (if producer_done s then [None] else []))
      \<and> (producer_done s \<longrightarrow> todo s = [])
      \<and> pushed s = map Some (yielded s) @ (if stopped s then [None] else []) @ que s)"

text \<open>A reader for which every path decodes, and one that cannot decode \<open>missing.png\<close>.\<close>

definition imread_ok :: "string \<Rightarrow> string option" where
  "imread_ok img_path = Some img_path"

definition imread_missing :: "string \<Rightarrow> string option" where
  "imread_missing img_path = (if img_path = ''missing.png'' then None else Some img_path)"

text \<open>
  An instance of scale 2 with a pre-pad of 1, an input of 2 rows and 3 columns (padded
  to 4 by 4) and a network output of 8 by 8.
\<close>

definition pad_instance :: "int esrganer" where
  "pad_instance = (tile_fault_instance 5 9)\<lparr>scale := 2, pre_pad := 1\<rparr>"

definition pad_input :: "int tensor" where
  "pad_input = \<lparr>t_height = 2, t_width = 3, t_at = (\<lambda>y x. int (10 * y + x))\<rparr>"

definition pad_output :: "int tensor" where
  "pad_output = \<lparr>t_height = 8, t_width = 8, t_at = (\<lambda>y x. int (10 * y + x))\<rparr>"

text \<open>
  An example library for gray images, in which the pixel of a tensor is its gray value:
  the colour conversions copy or weigh the channels, \<open>resize\<close> samples the nearest
  pixel and rejects an empty target size as \<open>cv2.resize\<close> does, a number out of range
  is converted to 0, and the network repeats every pixel \<open>k\<close> times in both
  directions.  The example instance has scale 4, no tiling and no pre-pad.
\<close>

definition example_cvtColor :: "cvcode \<Rightarrow> ndarray \<Rightarrow> error + ndarray" where
  "example_cvtColor code a =
     (case code of
        COLOR_GRAY2RGB \<Rightarrow>
          Inr \<lparr>nd_shape = nd_shape a @ [3], nd_at = (\<lambda>i. nd_at a (take 2 i))\<rparr>
      | COLOR_BGR2RGB \<Rightarrow>
          Inr (a\<lparr>nd_at := (\<lambda>i. nd_at a (take 2 i @ [2 - i ! 2]))\<rparr>)
      | COLOR_BGR2GRAY \<Rightarrow>
          Inr \<lparr>nd_shape = take 2 (nd_shape a),
               nd_at = (\<lambda>i. 0.114 * nd_at a (i @ [0]) + 0.587 * nd_at a (i @ [1])
                              + 0.299 * nd_at a (i @ [2]))\<rparr>
      | COLOR_BGR2BGRA \<Rightarrow>
          Inr \<lparr>nd_shape = take 2 (nd_shape a) @ [4],
               nd_at = (\<lambda>i. if i ! 2 = 3 then 1 else nd_at a i)\<rparr>)"

definition example_resize :: "ndarray \<Rightarrow> int \<times> int \<Rightarrow> interpolation \<Rightarrow> error + ndarray" where
  "example_resize a dsize interp =
     (case dsize of (w, h) \<Rightarrow>
        if 0 < w \<and> 0 < h
        then Inr \<lparr>nd_shape = [nat h, nat w] @ drop 2 (nd_shape a),
                  nd_at = (\<lambda>i. nd_at a ([i ! 0 * (nd_shape a ! 0) div nat h,
                                           i ! 1 * (nd_shape a ! 1) div nat w] @ drop 2 i))\<rparr>
        else Inl CvError)"

definition example_to_tensor :: "ndarray \<Rightarrow> error + real tensor" where
  "example_to_tensor a =
     Inr \<lparr>t_height = nd_shape a ! 0, t_width = nd_shape a ! 1,
          t_at = (\<lambda>y x. nd_at a [y, x, 0])\<rparr>"

definition example_clamp01 :: "real tensor \<Rightarrow> real tensor" where
  "example_clamp01 t = t\<lparr>t_at := (\<lambda>y x. max 0 (min 1 (t_at t y x)))\<rparr>"

definition example_tensor_to_bgr :: "real tensor \<Rightarrow> error + ndarray" where
  "example_tensor_to_bgr t =
     Inr \<lparr>nd_shape = [t_height t, t_width t, 3], nd_at = (\<lambda>i. t_at t (i ! 0) (i ! 1))\<rparr>"

definition example_lib :: "real lib" where
  "example_lib =
     \<lparr>cvtColor = example_cvtColor, resize = example_resize, to_tensor = example_to_tensor,
      clamp01 = example_clamp01, clamp_shares_output = True,
      tensor_to_bgr = example_tensor_to_bgr, cast_out_of_range = (\<lambda>bits v. 0)\<rparr>"

definition upscale_net :: "nat \<Rightarrow> real tensor \<Rightarrow> error + real tensor" where
  "upscale_net k t =
     Inr \<lparr>t_height = k * t_height t, t_width = k * t_width t,
          t_at = (\<lambda>y x. t_at t (y div k) (x div k))\<rparr>"

definition example_instance :: "real option \<Rightarrow> real esrganer" where
  "example_instance os =
     \<lparr>scale = 4, tile_size = 0, tile_pad = 10, pre_pad = 0, mod_scale = None,
      mod_pad_h = 0, mod_pad_w = 0, backend = ''torch'', outscale = os,
      net_g = upscale_net 4, ort_session_run = upscale_net 4, triton_infer = upscale_net 4,
      img = \<lparr>t_height = 0, t_width = 0, t_at = (\<lambda>y x. 0)\<rparr>,
      output' = \<lparr>t_height = 0, t_width = 0, t_at = (\<lambda>y x. 0)\<rparr>, trace = []\<rparr>"

definition gray_pixel :: "real \<Rightarrow> ndarray" where
  "gray_pixel v = \<lparr>nd_shape = [1, 1], nd_at = (\<lambda>i. v)\<rparr>"

definition rgba_pixel :: "real \<Rightarrow> ndarray" where
  "rgba_pixel v = \<lparr>nd_shape = [1, 1, 4], nd_at = (\<lambda>i. v)\<rparr>"

definition gray_image :: "nat \<Rightarrow> nat \<Rightarrow> real \<Rightarrow> ndarray" where
  "gray_image h w v = \<lparr>nd_shape = [h, w], nd_at = (\<lambda>i. v)\<rparr>"

text \<open>
  The interpolation example of the specification: two checkpoints whose single shared
  parameter is 1.0 and 2.0.
\<close>

definition ckpt_example :: "string \<Rightarrow> error + real checkpoint" where
  "ckpt_example p =
     (if p = ''a.pth'' then Inr [(''params'', [(''weight'', 1)])]
      else Inr [(''params'', [(''weight'', 2)])])"

section \<open>Verified properties\<close>

subsection \<open>Weight-key resolution\<close>

text \<open>
  C7. When a torch instance is constructed and the checkpoint \<open>loadnet\<close> has been
  obtained: if \<open>loadnet\<close> has the key \<open>params_ema\<close>, the state dictionary under that
  key is the one handed to \<open>load_state_dict\<close>; otherwise the one under \<open>params\<close> is;
  and if neither key is present the construction fails, with the \<open>KeyError\<close> of
  \<open>loadnet[keyname]\<close> (the failure the specification names \<open>ModelLoadError\<close>).
\<close>

theorem weight_key_resolution:
  assumes "init_loadnet torch_load load_file_from_url model_path dni_weight = Inr loadnet"
  shows "(\<forall>sd. map_of loadnet ''params_ema'' = Some sd \<longrightarrow>
            init_torch torch_load load_file_from_url load_state_dict model_path dni_weight
              = load_state_dict sd)
       \<and> (\<forall>sd. map_of loadnet ''params_ema'' = None \<and> map_of loadnet ''params'' = Some sd \<longrightarrow>
            init_torch torch_load load_file_from_url load_state_dict model_path dni_weight
              = load_state_dict sd)
       \<and> (map_of loadnet ''params_ema'' = None \<and> map_of loadnet ''params'' = None \<longrightarrow>
            init_torch torch_load load_file_from_url load_state_dict model_path dni_weight
              = Inl KeyError)"
  using assms by (simp add: init_torch_def has_key_def dict_get_def)

theorem weight_key_resolution_witness:
  "init_torch (\<lambda>p. Inr [(''params'', [(''w'', 1::int)]), (''params_ema'', [(''w'', 2)])])
      Inr Inr (PathStr ''net.pth'') [] = (Inr [(''w'', 2)] :: error + int state_dict)
   \<and> init_torch (\<lambda>p. Inr [(''params'', [(''w'', 1::int)])])
      Inr Inr (PathStr ''net.pth'') [] = (Inr [(''w'', 1)] :: error + int state_dict)
   \<and> init_torch (\<lambda>p. Inr [(''other'', [(''w'', 1::int)])])
      Inr Inr (PathStr ''net.pth'') [] = (Inl KeyError :: error + int state_dict)"
proof -
  have l1: "init_loadnet (\<lambda>p. Inr [(''params'', [(''w'', 1::int)]), (''params_ema'', [(''w'', 2)])])
      Inr (PathStr ''net.pth'') [] = Inr [(''params'', [(''w'', 1::int)]), (''params_ema'', [(''w'', 2)])]"
    by (simp add: init_loadnet_def startswith_def)
  have l2: "init_loadnet (\<lambda>p. Inr [(''params'', [(''w'', 1::int)])])
      Inr (PathStr ''net.pth'') [] = Inr [(''params'', [(''w'', 1::int)])]"
    by (simp add: init_loadnet_def startswith_def)
  have l3: "init_loadnet (\<lambda>p. Inr [(''other'', [(''w'', 1::int)])])
      Inr (PathStr ''net.pth'') [] = Inr [(''other'', [(''w'', 1::int)])]"
    by (simp add: init_loadnet_def startswith_def)
  show ?thesis
    using weight_key_resolution[OF l1, of Inr] weight_key_resolution[OF l2, of Inr]
      weight_key_resolution[OF l3, of Inr]
    by simp
qed

subsection \<open>Deep network interpolation\<close>

lemma dict_set_keys: "map fst (dict_set d k v) = (if k \<in> fst ` set d then map fst d else map fst d @ [k])"
  by (simp add: dict_set_def update_keys)

lemma map_of_dict_set: "map_of (dict_set d k v) = (map_of d)(k \<mapsto> v)"
  by (simp add: dict_set_def update_conv')

lemma dni_loop_ok:
  assumes "dni_loop [w0, w1] net_b key ks d = Inr d'" and "distinct ks"
  shows "map fst d' = map fst d \<and>
         (\<forall>k. k \<notin> set ks \<longrightarrow> map_of d' k = map_of d k) \<and>
         (\<forall>k\<in>set ks. \<exists>v_a params_b v_b. map_of d k = Some v_a \<and> map_of net_b key = Some params_b
              \<and> map_of params_b k = Some v_b \<and> map_of d' k = Some (w0 * v_a + w1 * v_b))"
  using assms
proof (induction ks arbitrary: d)
  case Nil
  then show ?case by simp
next
  case (Cons k ks)
  from Cons.prems(1) obtain v_a params_b v_b where
    va: "map_of d k = Some v_a" and pb: "map_of net_b key = Some params_b"
    and vb: "map_of params_b k = Some v_b"
    and rest: "dni_loop [w0, w1] net_b key ks (dict_set d k (w0 * v_a + w1 * v_b)) = Inr d'"
    by (auto simp: dict_get_def list_get_def split: option.splits sum.splits)
  let ?d1 = "dict_set d k (w0 * v_a + w1 * v_b)"
  from Cons.prems(2) have dk: "distinct ks" and kn: "k \<notin> set ks" by auto
  note ih = Cons.IH[OF rest dk]
  have kin: "k \<in> fst ` set d" using map_of_SomeD[OF va] by force
  have keys: "map fst d' = map fst d" using ih kin by (simp add: dict_set_keys)
  have other: "\<forall>j. j \<notin> set (k # ks) \<longrightarrow> map_of d' j = map_of d j"
    using ih by (auto simp: map_of_dict_set)
  have here: "map_of d' k = Some (w0 * v_a + w1 * v_b)"
    using ih kn by (simp add: map_of_dict_set)
  have later: "\<forall>j\<in>set ks. \<exists>v_a params_b v_b. map_of d j = Some v_a \<and> map_of net_b key = Some params_b
              \<and> map_of params_b j = Some v_b \<and> map_of d' j = Some (w0 * v_a + w1 * v_b)"
  proof
    fix j assume j: "j \<in> set ks"
    then have "j \<noteq> k" using kn by auto
    with ih j show "\<exists>v_a params_b v_b. map_of d j = Some v_a \<and> map_of net_b key = Some params_b
              \<and> map_of params_b j = Some v_b \<and> map_of d' j = Some (w0 * v_a + w1 * v_b)"
      by (auto simp: map_of_dict_set)
  qed
  show ?case using keys other here later va pb vb by auto
qed

lemma dni_loop_total:
  assumes "map_of net_b key = Some params_b" and "set ks \<subseteq> fst ` set params_b" and "set ks \<subseteq> fst ` set d"
  shows "\<exists>d'. dni_loop [w0, w1] net_b key ks d = Inr d'"
  using assms
proof (induction ks arbitrary: d)
  case Nil
  then show ?case by simp
next
  case (Cons k ks)
  from Cons.prems obtain v_a where va: "map_of d k = Some v_a"
    by (metis list.set_intros(1) map_of_eq_None_iff not_Some_eq subsetD)
  from Cons.prems obtain v_b where vb: "map_of params_b k = Some v_b"
    by (metis list.set_intros(1) map_of_eq_None_iff not_Some_eq subsetD)
  have "set ks \<subseteq> fst ` set (dict_set d k (w0 * v_a + w1 * v_b))"
    using Cons.prems(3) by (auto simp: dict_set_def dom_update)
  from Cons.IH[OF Cons.prems(1) _ this] Cons.prems(2)
  obtain d' where "dni_loop [w0, w1] net_b key ks (dict_set d k (w0 * v_a + w1 * v_b)) = Inr d'"
    by auto
  then show ?case using va vb Cons.prems(1) by (simp add: dict_get_def list_get_def)
qed


text \<open>
  C5. Let the two checkpoints load, and let \<open>params_a\<close> be the state dictionary of the
  first under \<open>key\<close>.  Whenever \<open>dni\<close> returns a merged checkpoint, its state
  dictionary under \<open>key\<close> has the keys of \<open>params_a\<close> in the same order and maps every
  key \<open>k\<close> to \<open>w0 * a[k] + w1 * b[k]\<close>; and \<open>dni\<close> does return one when every key of
  \<open>params_a\<close> is a key of the second checkpoint's state dictionary.  At the weights
  \<open>[0.3, 0.7]\<close> and the parameters 1.0 and 2.0 the merged parameter is 1.7.
\<close>

theorem dni_interpolates:
  assumes la: "torch_load path_a = Inr net_a" and lb: "torch_load path_b = Inr net_b"
    and pa: "map_of net_a key = Some params_a" and dist: "distinct (map fst params_a)"
  shows "(\<forall>merged. dni torch_load path_a path_b [w0, w1] key = Inr merged \<longrightarrow>
            (\<exists>d. map_of merged key = Some d \<and> map fst d = map fst params_a \<and>
               (\<forall>k v_a. map_of params_a k = Some v_a \<longrightarrow>
                  (\<exists>params_b v_b. map_of net_b key = Some params_b \<and> map_of params_b k = Some v_b
                     \<and> map_of d k = Some (w0 * v_a + w1 * v_b)))))
       \<and> (\<forall>params_b. map_of net_b key = Some params_b \<and> fst ` set params_a \<subseteq> fst ` set params_b
            \<longrightarrow> (\<exists>merged. dni torch_load path_a path_b [w0, w1] key = Inr merged))"
proof (intro conjI allI impI)
  fix merged
  assume run: "dni torch_load path_a path_b [w0, w1] key = Inr merged"
  then obtain d where loop: "dni_loop [w0, w1] net_b key (map fst params_a) params_a = Inr d"
    and m: "merged = dict_set net_a key d"
    using la lb pa by (auto simp: dni_def dict_get_def split: sum.splits)
  note ok = dni_loop_ok[OF loop dist]
  have "map_of merged key = Some d" using m by (simp add: map_of_dict_set)
  moreover have "map fst d = map fst params_a" using ok by simp
  moreover have "\<forall>k v_a. map_of params_a k = Some v_a \<longrightarrow>
                  (\<exists>params_b v_b. map_of net_b key = Some params_b \<and> map_of params_b k = Some v_b
                     \<and> map_of d k = Some (w0 * v_a + w1 * v_b))"
  proof (intro allI impI)
    fix k v_a assume va: "map_of params_a k = Some v_a"
    then have "k \<in> set (map fst params_a)" using map_of_SomeD[OF va] by force
    with ok va show "\<exists>params_b v_b. map_of net_b key = Some params_b \<and> map_of params_b k = Some v_b
                     \<and> map_of d k = Some (w0 * v_a + w1 * v_b)"
      by fastforce
  qed
  ultimately show "\<exists>d. map_of merged key = Some d \<and> map fst d = map fst params_a \<and>
               (\<forall>k v_a. map_of params_a k = Some v_a \<longrightarrow>
                  (\<exists>params_b v_b. map_of net_b key = Some params_b \<and> map_of params_b k = Some v_b
                     \<and> map_of d k = Some (w0 * v_a + w1 * v_b)))"
    by blast
next
  fix params_b
  assume h: "map_of net_b key = Some params_b \<and> fst ` set params_a \<subseteq> fst ` set params_b"
  then have "\<exists>d. dni_loop [w0, w1] net_b key (map fst params_a) params_a = Inr d"
    by (intro dni_loop_total[where params_b = params_b]) auto
  then show "\<exists>merged. dni torch_load path_a path_b [w0, w1] key = Inr merged"
    using la lb pa by (auto simp: dni_def dict_get_def)
qed

theorem dni_interpolates_witness:
  "\<exists>merged d. dni ckpt_example ''a.pth'' ''b.pth'' [0.3, 0.7] ''params'' = Inr merged
      \<and> map_of merged ''params'' = Some d \<and> map fst d = [''weight'']
      \<and> map_of d ''weight'' = Some 1.7"
proof -
  have la: "ckpt_example ''a.pth'' = Inr [(''params'', [(''weight'', 1)])]"
    by (simp add: ckpt_example_def)
  have lb: "ckpt_example ''b.pth'' = Inr [(''params'', [(''weight'', 2)])]"
    by (simp add: ckpt_example_def)
  have pa: "map_of [(''params'', [(''weight'', 1::real)])] ''params'' = Some [(''weight'', 1)]"
    by simp
  have pb: "map_of [(''params'', [(''weight'', 2::real)])] ''params'' = Some [(''weight'', 2)]"
    by simp
  have dist: "distinct (map fst [(''weight'', 1::real)])" by simp
  have sub: "fst ` set [(''weight'', 1::real)] \<subseteq> fst ` set [(''weight'', 2::real)]" by simp
  note th = dni_interpolates[OF la lb pa dist, of "0.3" "0.7"]
  from th pb sub obtain merged where
    run: "dni ckpt_example ''a.pth'' ''b.pth'' [0.3, 0.7] ''params'' = Inr merged"
    by blast
  with th obtain d where d: "map_of merged ''params'' = Some d" "map fst d = map fst [(''weight'', 1::real)]"
    and val: "\<forall>k v_a. map_of [(''weight'', 1::real)] k = Some v_a \<longrightarrow>
                  (\<exists>params_b v_b. map_of [(''params'', [(''weight'', 2::real)])] ''params'' = Some params_b
                     \<and> map_of params_b k = Some v_b \<and> map_of d k = Some (0.3 * v_a + 0.7 * v_b))"
    by blast
  have va: "map_of [(''weight'', 1::real)] ''weight'' = Some 1" by simp
  from val va obtain params_b v_b where
    "map_of [(''params'', [(''weight'', 2::real)])] ''params'' = Some params_b"
    "map_of params_b ''weight'' = Some v_b" "map_of d ''weight'' = Some (0.3 * 1 + 0.7 * v_b)"
    by blast
  then have "map_of d ''weight'' = Some (0.3 * 1 + 0.7 * 2)" by auto
  then have "map_of d ''weight'' = Some 1.7" by simp
  with run d show ?thesis by simp
qed

subsection \<open>Tiling: the output regions partition the output image\<close>























subsection \<open>Tiling on a backend without tile support\<close>

text \<open>
  C8. On the \<open>onnx\<close> and the \<open>triton\<close> backend \<open>tile_process\<close> raises
  \<open>NotImplementedError\<close> (the specification's \<open>UnsupportedOperationError\<close>) before
  anything else happens: the instance is returned as it was, so \<open>self.output\<close> is not
  written and the trace has no network call.
\<close>

theorem tile_process_unsupported_backend:
  "backend self = ''onnx'' \<or> backend self = ''triton''
    \<Longrightarrow> tile_process self = (Some NotImplementedError, self)"
  by (simp add: tile_process_def)

theorem tile_process_unsupported_backend_witness:
  "tile_process ((tile_fault_instance 5 9)\<lparr>backend := ''onnx''\<rparr>)
      = (Some NotImplementedError, (tile_fault_instance 5 9)\<lparr>backend := ''onnx''\<rparr>)
   \<and> tile_process ((tile_fault_instance 5 9)\<lparr>backend := ''triton''\<rparr>)
      = (Some NotImplementedError, (tile_fault_instance 5 9)\<lparr>backend := ''triton''\<rparr>)"
  using tile_process_unsupported_backend[of "(tile_fault_instance 5 9)\<lparr>backend := ''onnx''\<rparr>"]
    tile_process_unsupported_backend[of "(tile_fault_instance 5 9)\<lparr>backend := ''triton''\<rparr>"]
  by simp

subsection \<open>A fault of the network on one tile\<close>

lemmas eval_cong =
  sum.case_cong_weak option.case_cong_weak prod.case_cong_weak let_weak_cong

lemmas tile_eval =
  tile_process_def new_zeros_def Let_def tile_step_def tile_vars_def tensor_slice_def
  slice_bound_def tensor_assign_def is_RuntimeError_def

lemma tile_coords_1_2: "tile_coords 1 2 = [(0, 0), (0, 1)]"
  by (simp add: tile_coords_def py_range_def upto_rec1)

text \<open>
  C3 (what the code does).  When the network faults on the second of two tiles, the
  fault is printed and the loop goes on, but the copy that follows the \<open>try\<close> block
  still runs, with \<open>output_tile\<close> left over from the first tile: the region of the
  failed tile receives the first tile's output 5 instead of staying 0.  When the
  network faults on the first tile, \<open>output_tile\<close> is unbound, the copy raises
  \<open>UnboundLocalError\<close> and the second tile is never processed.
\<close>

theorem tile_fault_region_not_left_zero:
  "fst (tile_process (tile_fault_instance 5 9)) = None
   \<and> printed (trace (snd (tile_process (tile_fault_instance 5 9))))
       = [PrintTile 1 2, PrintError RuntimeError, PrintTile 2 2]
   \<and> t_at (output' (snd (tile_process (tile_fault_instance 5 9)))) 0 1 = 5
   \<and> fst (tile_process (tile_fault_instance 9 5)) = Some UnboundLocalError
   \<and> printed (trace (snd (tile_process (tile_fault_instance 9 5))))
       = [PrintError RuntimeError, PrintTile 1 2]"
  by (simp add: tile_eval tile_fault_instance_def two_pixel_img_def faulty_net_def
        tile_coords_1_2 printed_def cong: eval_cong)

subsection \<open>Padding round trip\<close>

lemma pad_reflect_shape:
  assumes "pad_reflect t pr pb = Inr t'"
  shows "int (t_height t') = int (t_height t) + pb" and "int (t_width t') = int (t_width t) + pr"
  using assms by (auto simp: pad_reflect_def Let_def split: if_splits)

lemma slice_from_0:
  assumes "0 \<le> k" "k \<le> int (t_height t)" "0 \<le> l" "l \<le> int (t_width t)"
  shows "tensor_slice t 0 k 0 l = \<lparr>t_height = nat k, t_width = nat l, t_at = t_at t\<rparr>"
  using assms by (auto simp: tensor_slice_def slice_bound_def min_def)


lemma pre_pad_step_shape:
  assumes "pre_pad_step self = (None, self1)"
  shows "int (t_height (img self1)) = int (t_height (img self)) + pre_pad self"
    and "int (t_width (img self1)) = int (t_width (img self)) + pre_pad self"
    and "scale self1 = scale self" and "pre_pad self1 = pre_pad self"
    and "mod_scale self1 = mod_scale self"
  using assms
  by (auto simp: pre_pad_step_def dest: pad_reflect_shape split: if_splits sum.splits)

lemma mod_pad_step_shape:
  assumes run: "mod_pad_step self = (None, self1)"
    and ms: "mod_scale self \<in> {None, Some 2, Some 4}"
  shows "int (t_height (img self1)) = int (t_height (img self)) + eff_mod_pad_h self1"
    and "int (t_width (img self1)) = int (t_width (img self)) + eff_mod_pad_w self1"
    and "0 \<le> eff_mod_pad_h self1" and "0 \<le> eff_mod_pad_w self1"
    and "scale self1 = scale self" and "pre_pad self1 = pre_pad self"
    and "mod_scale self1 = mod_scale self"
proof -
  have "int (t_height (img self1)) = int (t_height (img self)) + eff_mod_pad_h self1
      \<and> int (t_width (img self1)) = int (t_width (img self)) + eff_mod_pad_w self1
      \<and> 0 \<le> eff_mod_pad_h self1 \<and> 0 \<le> eff_mod_pad_w self1
      \<and> scale self1 = scale self \<and> pre_pad self1 = pre_pad self
      \<and> mod_scale self1 = mod_scale self"
  proof (cases "mod_scale self")
    case None
    then show ?thesis using run by (simp add: mod_pad_step_def eff_mod_pad_h_def eff_mod_pad_w_def)
  next
    case (Some m)
    then have m: "0 < m" using ms by auto
    let ?h = "int (t_height (img self))" 
    let ?w = "int (t_width (img self))"
    let ?mh = "(if ?h mod m \<noteq> 0 then m - ?h mod m else 0)"
    let ?mw = "(if ?w mod m \<noteq> 0 then m - ?w mod m else 0)"
    let ?s3 = "self\<lparr>mod_pad_h := ?mh, mod_pad_w := ?mw\<rparr>"
    have s3: "(let self1 = self\<lparr>mod_pad_h := 0, mod_pad_w := 0\<rparr>;
               self2 = (if ?h mod m \<noteq> 0 then self1\<lparr>mod_pad_h := m - ?h mod m\<rparr> else self1);
               self3 = (if ?w mod m \<noteq> 0 then self2\<lparr>mod_pad_w := m - ?w mod m\<rparr> else self2)
           in self3) = ?s3"
      by (simp add: Let_def)
    from run Some m obtain padded where
      p: "pad_reflect (img self) ?mw ?mh = Inr padded" and s1: "self1 = ?s3\<lparr>img := padded\<rparr>"
      by (auto simp: mod_pad_step_def Let_def split: sum.splits if_splits)
    have nh: "0 \<le> ?mh" using pos_mod_bound[OF m, of ?h] by simp
    have nw: "0 \<le> ?mw" using pos_mod_bound[OF m, of ?w] by simp
    have msn: "mod_scale self1 = Some m" using s1 Some by simp
    show ?thesis
      using pad_reflect_shape[OF p] s1 nh nw msn Some
      by (simp add: eff_mod_pad_h_def eff_mod_pad_w_def)
  qed
  then show "int (t_height (img self1)) = int (t_height (img self)) + eff_mod_pad_h self1"
    and "int (t_width (img self1)) = int (t_width (img self)) + eff_mod_pad_w self1"
    and "0 \<le> eff_mod_pad_h self1" and "0 \<le> eff_mod_pad_w self1"
    and "scale self1 = scale self" and "pre_pad self1 = pre_pad self"
    and "mod_scale self1 = mod_scale self"
    by simp_all
qed

lemma set_mod_scale_fields:
  "scale (set_mod_scale self) = scale self" "pre_pad (set_mod_scale self) = pre_pad self"
  "img (set_mod_scale self) = img self"
  "mod_scale self \<in> {None, Some 2, Some 4} \<Longrightarrow> mod_scale (set_mod_scale self) \<in> {None, Some 2, Some 4}"
  by (auto simp: set_mod_scale_def)

lemma pre_process_shape:
  assumes pre: "pre_process self inp = (None, self1)"
    and ms: "mod_scale self \<in> {None, Some 2, Some 4}"
  shows "scale self1 = scale self \<and> pre_pad self1 = pre_pad self
       \<and> int (t_height (img self1)) = int (t_height inp) + pre_pad self + eff_mod_pad_h self1
       \<and> int (t_width (img self1)) = int (t_width inp) + pre_pad self + eff_mod_pad_w self1
       \<and> 0 \<le> eff_mod_pad_h self1 \<and> 0 \<le> eff_mod_pad_w self1"
proof -
  from pre obtain s1 where a: "pre_pad_step (self\<lparr>img := inp\<rparr>) = (None, s1)"
    and b: "mod_pad_step (set_mod_scale s1) = (None, self1)"
    by (auto simp: pre_process_def split: prod.splits option.splits)
  from pre_pad_step_shape[OF a] have
    h1: "int (t_height (img s1)) = int (t_height inp) + pre_pad self"
    and w1: "int (t_width (img s1)) = int (t_width inp) + pre_pad self"
    and f1: "scale s1 = scale self" "pre_pad s1 = pre_pad self" "mod_scale s1 = mod_scale self"
    by simp_all
  have ms1: "mod_scale (set_mod_scale s1) \<in> {None, Some 2, Some 4}"
    using ms f1 by (intro set_mod_scale_fields(4)) simp
  note m = mod_pad_step_shape[OF b ms1]
  show ?thesis
    using m(1-6) h1 w1 f1 by (simp add: set_mod_scale_fields)
qed


lemma crop_shape:
  assumes hk: "int (t_height t) = (h + p) * s" and wk: "int (t_width t) = (w + q) * s"
    and nn: "0 \<le> h" "0 \<le> w" "0 \<le> s" "0 \<le> p" "0 \<le> q"
  shows "tensor_slice t 0 (int (t_height t) - p * s) 0 (int (t_width t) - q * s)
           = \<lparr>t_height = nat (h * s), t_width = nat (w * s), t_at = t_at t\<rparr>"
proof -
  let ?k = "int (t_height t) - p * s"
  let ?l = "int (t_width t) - q * s"
  have k: "?k = h * s" and l: "?l = w * s" using hk wk by (simp_all add: algebra_simps)
  have k0: "0 \<le> ?k" and l0: "0 \<le> ?l" using k l nn by simp_all
  have kh: "?k \<le> int (t_height t)" and lw: "?l \<le> int (t_width t)" using nn by simp_all
  show ?thesis using slice_from_0[OF k0 kh l0 lw] k l by simp
qed

lemma remove_mod_pad_shape:
  assumes "int (t_height (output' self)) = (h + eff_mod_pad_h self) * scale self"
    and "int (t_width (output' self)) = (w + eff_mod_pad_w self) * scale self"
    and "0 \<le> h" "0 \<le> w" "0 \<le> scale self" "0 \<le> eff_mod_pad_h self" "0 \<le> eff_mod_pad_w self"
  shows "int (t_height (output' (remove_mod_pad self))) = h * scale self
       \<and> int (t_width (output' (remove_mod_pad self))) = w * scale self
       \<and> t_at (output' (remove_mod_pad self)) = t_at (output' self)
       \<and> scale (remove_mod_pad self) = scale self \<and> pre_pad (remove_mod_pad self) = pre_pad self"
proof (cases "mod_scale self = None")
  case True
  then show ?thesis
    using assms by (simp add: remove_mod_pad_def eff_mod_pad_h_def eff_mod_pad_w_def)
next
  case False
  then have e: "eff_mod_pad_h self = mod_pad_h self" "eff_mod_pad_w self = mod_pad_w self"
    by (auto simp: eff_mod_pad_h_def eff_mod_pad_w_def)
  have "output' (remove_mod_pad self)
          = \<lparr>t_height = nat (h * scale self), t_width = nat (w * scale self),
             t_at = t_at (output' self)\<rparr>"
    using False crop_shape[OF assms(1,2,3,4,5,6,7)] e by (simp add: remove_mod_pad_def Let_def)
  moreover have "scale (remove_mod_pad self) = scale self" "pre_pad (remove_mod_pad self) = pre_pad self"
    by (simp_all add: remove_mod_pad_def Let_def)
  ultimately show ?thesis using assms(3,4,5) by simp
qed

lemma remove_pre_pad_shape:
  assumes "int (t_height (output' self)) = (h + pre_pad self) * scale self"
    and "int (t_width (output' self)) = (w + pre_pad self) * scale self"
    and "0 \<le> h" "0 \<le> w" "0 \<le> scale self" "0 \<le> pre_pad self"
  shows "int (t_height (output' (remove_pre_pad self))) = h * scale self
       \<and> int (t_width (output' (remove_pre_pad self))) = w * scale self
       \<and> t_at (output' (remove_pre_pad self)) = t_at (output' self)"
proof (cases "pre_pad self = 0")
  case True
  then show ?thesis using assms by (simp add: remove_pre_pad_def)
next
  case False
  have "output' (remove_pre_pad self)
          = \<lparr>t_height = nat (h * scale self), t_width = nat (w * scale self),
             t_at = t_at (output' self)\<rparr>"
    using False crop_shape[OF assms(1,2,3,4,5,6,6)] by (simp add: remove_pre_pad_def Let_def)
  then show ?thesis using assms(3,4,5) by simp
qed

text \<open>
  C2. Let the instance have a pre-pad \<open>p \<ge> 0\<close> and a scale \<open>s \<ge> 1\<close> (its
  \<open>mod_scale\<close> being unset or one of the values 2 and 4 that \<open>pre_process\<close> assigns), let
  \<open>pre_process\<close> succeed on an input of height \<open>h\<close> and width \<open>w\<close>, and let the backend
  output \<open>out\<close> have \<open>s\<close> times the extents of the padded \<open>self.img\<close>.  Then
  \<open>post_process\<close> first cuts the alignment pad, leaving \<open>(h + p) * s\<close> by
  \<open>(w + p) * s\<close>, then the pre-pad, leaving exactly \<open>h * s\<close> by \<open>w * s\<close>; and every
  pixel that is left is the pixel of \<open>out\<close> at the same position, so only the bottom
  and the right are cropped.
\<close>

theorem padding_round_trip:
  assumes pp: "0 \<le> pre_pad self" and sc: "1 \<le> scale self"
    and ms: "mod_scale self \<in> {None, Some 2, Some 4}"
    and pre: "pre_process self inp = (None, self1)"
    and oh: "int (t_height out) = int (t_height (img self1)) * scale self"
    and ow: "int (t_width out) = int (t_width (img self1)) * scale self"
  shows "int (t_height (output' (remove_mod_pad (self1\<lparr>output' := out\<rparr>))))
           = (int (t_height inp) + pre_pad self) * scale self
       \<and> int (t_width (output' (remove_mod_pad (self1\<lparr>output' := out\<rparr>))))
           = (int (t_width inp) + pre_pad self) * scale self
       \<and> int (t_height (output' (post_process (self1\<lparr>output' := out\<rparr>))))
           = int (t_height inp) * scale self
       \<and> int (t_width (output' (post_process (self1\<lparr>output' := out\<rparr>))))
           = int (t_width inp) * scale self
       \<and> t_at (output' (post_process (self1\<lparr>output' := out\<rparr>))) = t_at out"
proof -
  let ?s2 = "self1\<lparr>output' := out\<rparr>"
  from pre_process_shape[OF pre ms] have
    f: "scale self1 = scale self" "pre_pad self1 = pre_pad self"
    and h: "int (t_height (img self1)) = int (t_height inp) + pre_pad self + eff_mod_pad_h self1"
    and w: "int (t_width (img self1)) = int (t_width inp) + pre_pad self + eff_mod_pad_w self1"
    and n: "0 \<le> eff_mod_pad_h self1" "0 \<le> eff_mod_pad_w self1"
    by simp_all
  have e: "eff_mod_pad_h ?s2 = eff_mod_pad_h self1" "eff_mod_pad_w ?s2 = eff_mod_pad_w self1"
    by (simp_all add: eff_mod_pad_h_def eff_mod_pad_w_def)
  have a1: "int (t_height (output' ?s2)) = (int (t_height inp) + pre_pad self + eff_mod_pad_h ?s2) * scale ?s2"
    using oh h f e by simp
  have a2: "int (t_width (output' ?s2)) = (int (t_width inp) + pre_pad self + eff_mod_pad_w ?s2) * scale ?s2"
    using ow w f e by simp
  have s0: "0 \<le> scale ?s2" using sc f by simp
  have hp: "0 \<le> int (t_height inp) + pre_pad self" "0 \<le> int (t_width inp) + pre_pad self"
    using pp by simp_all
  have n2: "0 \<le> eff_mod_pad_h ?s2" "0 \<le> eff_mod_pad_w ?s2" using n e by simp_all
  from remove_mod_pad_shape[OF a1 a2 hp s0 n2] have
    m: "int (t_height (output' (remove_mod_pad ?s2))) = (int (t_height inp) + pre_pad self) * scale ?s2"
       "int (t_width (output' (remove_mod_pad ?s2))) = (int (t_width inp) + pre_pad self) * scale ?s2"
       "t_at (output' (remove_mod_pad ?s2)) = t_at (output' ?s2)"
       "scale (remove_mod_pad ?s2) = scale ?s2" "pre_pad (remove_mod_pad ?s2) = pre_pad ?s2"
    by simp_all
  let ?s3 = "remove_mod_pad ?s2"
  have b1: "int (t_height (output' ?s3)) = (int (t_height inp) + pre_pad ?s3) * scale ?s3"
    using m f by simp
  have b2: "int (t_width (output' ?s3)) = (int (t_width inp) + pre_pad ?s3) * scale ?s3"
    using m f by simp
  have s3: "0 \<le> scale ?s3" "0 \<le> pre_pad ?s3" using m(4,5) s0 pp f by simp_all
  have i0: "0 \<le> int (t_height inp)" "0 \<le> int (t_width inp)" by simp_all
  from remove_pre_pad_shape[OF b1 b2 i0 s3] have
    r: "int (t_height (output' (remove_pre_pad ?s3))) = int (t_height inp) * scale ?s3"
       "int (t_width (output' (remove_pre_pad ?s3))) = int (t_width inp) * scale ?s3"
       "t_at (output' (remove_pre_pad ?s3)) = t_at (output' ?s3)"
    by simp_all
  have "int (t_height (output' (post_process ?s2))) = int (t_height inp) * scale self"
    using r(1) m(4) f by (simp add: post_process_def)
  moreover have "int (t_width (output' (post_process ?s2))) = int (t_width inp) * scale self"
    using r(2) m(4) f by (simp add: post_process_def)
  moreover have "t_at (output' (post_process ?s2)) = t_at out"
    using r(3) m(3) by (simp add: post_process_def)
  ultimately show ?thesis using m(1,2) f by simp
qed


lemmas pad_eval =
  pre_process_def pre_pad_step_def set_mod_scale_def mod_pad_step_def pad_reflect_def Let_def

theorem padding_round_trip_witness:
  "fst (pre_process pad_instance pad_input) = None
   \<and> t_height (img (snd (pre_process pad_instance pad_input))) = 4
   \<and> t_width (img (snd (pre_process pad_instance pad_input))) = 4
   \<and> int (t_height (output' (post_process
          ((snd (pre_process pad_instance pad_input))\<lparr>output' := pad_output\<rparr>)))) = 4
   \<and> int (t_width (output' (post_process
          ((snd (pre_process pad_instance pad_input))\<lparr>output' := pad_output\<rparr>)))) = 6"
proof -
  have e: "fst (pre_process pad_instance pad_input) = None"
    "t_height (img (snd (pre_process pad_instance pad_input))) = 4"
    "t_width (img (snd (pre_process pad_instance pad_input))) = 4"
    by (simp_all add: pad_eval pad_instance_def pad_input_def tile_fault_instance_def
          cong: eval_cong)
  have pre: "pre_process pad_instance pad_input = (None, snd (pre_process pad_instance pad_input))"
    using e(1) by (metis prod.collapse)
  have f: "(0::int) \<le> pre_pad pad_instance" "1 \<le> scale pad_instance"
    "mod_scale pad_instance \<in> {None, Some 2, Some 4}"
    "scale pad_instance = 2" "pre_pad pad_instance = 1"
    by (simp_all add: pad_instance_def tile_fault_instance_def)
  have o: "int (t_height pad_output)
             = int (t_height (img (snd (pre_process pad_instance pad_input)))) * scale pad_instance"
    "int (t_width pad_output)
             = int (t_width (img (snd (pre_process pad_instance pad_input)))) * scale pad_instance"
    using e f by (simp_all add: pad_output_def)
  show ?thesis
    using padding_round_trip[OF f(1,2,3) pre o] e f(4,5) by (simp add: pad_input_def)
qed

subsection \<open>Order of the prefetch pipeline\<close>

lemma inv_init: "prefetch_inv imread img_list (prefetch_init img_list)"
  by (simp add: prefetch_inv_def prefetch_init_def)

lemma inv_step:
  assumes "prefetch_step imread maxsize s s'" and "prefetch_inv imread img_list s"
  shows "prefetch_inv imread img_list s'"
  using assms
proof (induction rule: prefetch_step.induct)
  case (put_img s img_path rest)
  then show ?case by (auto simp: prefetch_inv_def)
next
  case (put_sentinel s)
  then show ?case by (auto simp: prefetch_inv_def)
next
  case (next_item s next_item q)
  then show ?case by (auto simp: prefetch_inv_def)
next
  case (next_stop s q)
  then show ?case by (auto simp: prefetch_inv_def)
qed

lemma inv_reachable:
  assumes "(prefetch_step imread maxsize)\<^sup>*\<^sup>* (prefetch_init img_list) s"
  shows "prefetch_inv imread img_list s"
  using assms by (induction rule: rtranclp_induct) (auto intro: inv_init inv_step)

lemma measure_step:
  assumes "prefetch_step imread maxsize s s'"
  shows "prefetch_measure s' < prefetch_measure s"
  using assms by (induction rule: prefetch_step.induct) (auto simp: prefetch_measure_def)

lemma takeWhile_decoded:
  assumes "None \<notin> set xs"
  shows "takeWhile (\<lambda>x. x \<noteq> None) (xs @ (if d then [None] else []) ) = xs"
  using assms
proof (induction xs)
  case Nil
  then show ?case by simp
next
  case (Cons a xs)
  then show ?case by (cases a) auto
qed

lemma takeWhile_Some: "takeWhile (\<lambda>x. x \<noteq> None) (map Some ys @ zs) = map Some ys @ takeWhile (\<lambda>x. x \<noteq> None) zs"
  by (induction ys) auto

lemma bound_step:
  assumes "prefetch_step imread maxsize s s'"
    and "0 < maxsize \<longrightarrow> int (length (que s)) \<le> maxsize"
  shows "0 < maxsize \<longrightarrow> int (length (que s')) \<le> maxsize"
  using assms by (induction rule: prefetch_step.induct) (auto simp: queue_full_def)

lemma bound_reachable:
  assumes "(prefetch_step imread maxsize)\<^sup>*\<^sup>* (prefetch_init img_list) s"
  shows "0 < maxsize \<longrightarrow> int (length (que s)) \<le> maxsize"
  using assms
proof (induction rule: rtranclp_induct)
  case base
  then show ?case by (simp add: prefetch_init_def)
next
  case (step y z)
  then show ?case using bound_step by blast
qed

lemma progress:
  assumes inv: "prefetch_inv imread img_list s" and ns: "\<not> stopped s"
  shows "\<exists>s'. prefetch_step imread maxsize s s'"
proof (cases "que s")
  case Nil
  then have nf: "\<not> queue_full maxsize (que s)" by (simp add: queue_full_def)
  show ?thesis
  proof (cases "todo s")
    case (Cons p ps)
    from prefetch_step.put_img[OF Cons nf, of imread] show ?thesis by (rule exI)
  next
    case tn: Nil
    have "\<not> producer_done s"
    proof
      assume d: "producer_done s"
      from inv obtain dn where
        "pushed s = map imread dn @ (if producer_done s then [None] else [])"
        unfolding prefetch_inv_def by blast
      with d have "pushed s = map imread dn @ [None]" by simp
      then have "None \<in> set (pushed s)" by simp
      moreover from inv ns Nil have "pushed s = map Some (yielded s)"
        by (simp add: prefetch_inv_def)
      ultimately show False by auto
    qed
    from prefetch_step.put_sentinel[OF tn this nf, of imread] show ?thesis by (rule exI)
  qed
next
  case (Cons a q)
  show ?thesis
  proof (cases a)
    case None
    from prefetch_step.next_stop[OF Cons[unfolded None] ns, of imread maxsize]
    show ?thesis by (rule exI)
  next
    case (Some i)
    from prefetch_step.next_item[OF Cons[unfolded Some] ns, of imread maxsize]
    show ?thesis by (rule exI)
  qed
qed

lemma decoded_facts:
  assumes inv: "prefetch_inv imread img_list s" and dec: "\<forall>p \<in> set img_list. imread p \<noteq> None"
  shows "\<exists>rest. map imread img_list = map Some (yielded s) @ rest"
    and "stopped s \<longrightarrow> producer_done s \<and> todo s = [] \<and> que s = []
           \<and> map imread img_list = map Some (yielded s)
           \<and> pushed s = map imread img_list @ [None]"
    and "count_list (pushed s) None = (if producer_done s then 1 else 0)"
proof -
  from inv obtain dn where il: "img_list = dn @ todo s"
    and pu: "pushed s = map imread dn @ (if producer_done s then [None] else [])"
    and dt: "producer_done s \<longrightarrow> todo s = []"
    and py: "pushed s = map Some (yielded s) @ (if stopped s then [None] else []) @ que s"
    by (auto simp: prefetch_inv_def)
  have nn: "None \<notin> set (map imread dn)"
  proof
    assume "None \<in> set (map imread dn)"
    then obtain p where "p \<in> set dn" "imread p = None" by (metis (no_types) imageE list.set_map)
    then show False using dec il by simp
  qed
  have tw1: "takeWhile (\<lambda>x. x \<noteq> None) (pushed s) = map imread dn"
    unfolding pu by (rule takeWhile_decoded[OF nn])
  have tw2: "takeWhile (\<lambda>x. x \<noteq> None) (pushed s)
      = map Some (yielded s) @ takeWhile (\<lambda>x. x \<noteq> None) ((if stopped s then [None] else []) @ que s)"
    unfolding py by (rule takeWhile_Some)
  have pre: "map imread dn
      = map Some (yielded s) @ takeWhile (\<lambda>x. x \<noteq> None) ((if stopped s then [None] else []) @ que s)"
    using tw1 tw2 by simp
  show "\<exists>rest. map imread img_list = map Some (yielded s) @ rest"
    using pre il by (metis append.assoc map_append)
  show "count_list (pushed s) None = (if producer_done s then 1 else 0)"
    using nn by (simp add: pu)
  show "stopped s \<longrightarrow> producer_done s \<and> todo s = [] \<and> que s = []
           \<and> map imread img_list = map Some (yielded s)
           \<and> pushed s = map imread img_list @ [None]"
  proof
    assume st: "stopped s"
    with pre have e: "map imread dn = map Some (yielded s)" by simp
    with pu py st have "(if producer_done s then [None] else []) = None # que s" by simp
    then have d: "producer_done s" and q: "que s = []" by (auto split: if_splits)
    with dt il have "img_list = dn" by simp
    with e d q dt pu show "producer_done s \<and> todo s = [] \<and> que s = []
           \<and> map imread img_list = map Some (yielded s)
           \<and> pushed s = map imread img_list @ [None]" by simp
  qed
qed

text \<open>
  C9 (as amended).  Let every path of \<open>img_list\<close> decode (\<open>cv2.imread\<close> returns an
  image, not \<open>None\<close>).  In every state of every interleaving of producer and consumer:
  the items put so far are the decoded images of a prefix of \<open>img_list\<close>, in order,
  followed by exactly one sentinel once the producer has finished; a bounded queue
  never holds more than \<open>maxsize\<close> items; the images returned so far are a prefix of
  the decoded images in order; when the consumer has observed the sentinel it has
  returned all decoded images in the order of \<open>img_list\<close>, exactly one sentinel has
  been put and the queue is empty; until then some thread can always take a step; and
  every step decreases \<open>prefetch_measure\<close>, so every run ends, with the sentinel
  observed.
\<close>

theorem prefetch_order:
  assumes dec: "\<forall>p \<in> set img_list. imread p \<noteq> None"
    and reach: "(prefetch_step imread maxsize)\<^sup>*\<^sup>* (prefetch_init img_list) s"
  shows "(\<exists>done. img_list = done @ todo s
            \<and> pushed s = map imread done @ (if producer_done s then [None] else []))
       \<and> (producer_done s \<longrightarrow> todo s = [])
       \<and> count_list (pushed s) None = (if producer_done s then 1 else 0)
       \<and> (0 < maxsize \<longrightarrow> int (length (que s)) \<le> maxsize)
       \<and> (\<exists>rest. map imread img_list = map Some (yielded s) @ rest)
       \<and> (stopped s \<longrightarrow> map Some (yielded s) = map imread img_list
              \<and> pushed s = map imread img_list @ [None] \<and> que s = [] \<and> producer_done s)
       \<and> (\<not> stopped s \<longrightarrow> (\<exists>s'. prefetch_step imread maxsize s s'))
       \<and> (\<forall>s'. prefetch_step imread maxsize s s' \<longrightarrow> prefetch_measure s' < prefetch_measure s)"
proof -
  note inv = inv_reachable[OF reach]
  note d = decoded_facts[OF inv dec]
  have a: "\<exists>done. img_list = done @ todo s
            \<and> pushed s = map imread done @ (if producer_done s then [None] else [])"
    using inv unfolding prefetch_inv_def by blast
  have b: "producer_done s \<longrightarrow> todo s = []"
    using inv unfolding prefetch_inv_def by blast
  have c: "stopped s \<longrightarrow> map Some (yielded s) = map imread img_list
              \<and> pushed s = map imread img_list @ [None] \<and> que s = [] \<and> producer_done s"
    using d(2) by simp
  have e: "\<not> stopped s \<longrightarrow> (\<exists>s'. prefetch_step imread maxsize s s')"
    using progress[OF inv] by blast
  have f: "\<forall>s'. prefetch_step imread maxsize s s' \<longrightarrow> prefetch_measure s' < prefetch_measure s"
    using measure_step by blast
  show ?thesis
    by (intro conjI) (rule a, rule b, rule d(3), rule bound_reachable[OF reach], rule d(1),
        rule c, rule e, rule f)
qed

lemma run_ok:
  "(prefetch_step imread_ok 1)\<^sup>*\<^sup>* (prefetch_init [''a.png'', ''b.png''])
     \<lparr>todo = [], producer_done = True, que = [],
      pushed = [Some ''a.png'', Some ''b.png'', None],
      yielded = [''a.png'', ''b.png''], stopped = True\<rparr>"
proof -
  let ?s0 = "prefetch_init [''a.png'', ''b.png''] :: (string, string) prefetch"
  let ?s1 = "\<lparr>todo = [''b.png''], producer_done = False, que = [Some ''a.png''],
      pushed = [Some ''a.png''], yielded = [], stopped = False\<rparr> :: (string, string) prefetch"
  let ?s2 = "\<lparr>todo = [''b.png''], producer_done = False, que = [],
      pushed = [Some ''a.png''], yielded = [''a.png''], stopped = False\<rparr> :: (string, string) prefetch"
  let ?s3 = "\<lparr>todo = [], producer_done = False, que = [Some ''b.png''],
      pushed = [Some ''a.png'', Some ''b.png''], yielded = [''a.png''], stopped = False\<rparr>
      :: (string, string) prefetch"
  let ?s4 = "\<lparr>todo = [], producer_done = False, que = [],
      pushed = [Some ''a.png'', Some ''b.png''], yielded = [''a.png'', ''b.png''], stopped = False\<rparr>
      :: (string, string) prefetch"
  let ?s5 = "\<lparr>todo = [], producer_done = True, que = [None],
      pushed = [Some ''a.png'', Some ''b.png'', None], yielded = [''a.png'', ''b.png''],
      stopped = False\<rparr> :: (string, string) prefetch"
  let ?s6 = "\<lparr>todo = [], producer_done = True, que = [],
      pushed = [Some ''a.png'', Some ''b.png'', None], yielded = [''a.png'', ''b.png''],
      stopped = True\<rparr> :: (string, string) prefetch"
  have 1: "prefetch_step imread_ok 1 ?s0 ?s1"
    using prefetch_step.put_img[of ?s0 "''a.png''" "[''b.png'']" 1 imread_ok]
    by (simp add: prefetch_init_def queue_full_def imread_ok_def)
  have 2: "prefetch_step imread_ok 1 ?s1 ?s2"
    using prefetch_step.next_item[of ?s1 "''a.png''" "[]" imread_ok 1] by simp
  have 3: "prefetch_step imread_ok 1 ?s2 ?s3"
    using prefetch_step.put_img[of ?s2 "''b.png''" "[]" 1 imread_ok]
    by (simp add: queue_full_def imread_ok_def)
  have 4: "prefetch_step imread_ok 1 ?s3 ?s4"
    using prefetch_step.next_item[of ?s3 "''b.png''" "[]" imread_ok 1] by simp
  have 5: "prefetch_step imread_ok 1 ?s4 ?s5"
    using prefetch_step.put_sentinel[of ?s4 1 imread_ok] by (simp add: queue_full_def)
  have 6: "prefetch_step imread_ok 1 ?s5 ?s6"
    using prefetch_step.next_stop[of ?s5 "[]" imread_ok 1] by simp
  have "(prefetch_step imread_ok 1)\<^sup>*\<^sup>* ?s0 ?s1" using 1 by (rule r_into_rtranclp)
  then have "(prefetch_step imread_ok 1)\<^sup>*\<^sup>* ?s0 ?s2" using 2 by (rule rtranclp.rtrancl_into_rtrancl)
  then have "(prefetch_step imread_ok 1)\<^sup>*\<^sup>* ?s0 ?s3" using 3 by (rule rtranclp.rtrancl_into_rtrancl)
  then have "(prefetch_step imread_ok 1)\<^sup>*\<^sup>* ?s0 ?s4" using 4 by (rule rtranclp.rtrancl_into_rtrancl)
  then have "(prefetch_step imread_ok 1)\<^sup>*\<^sup>* ?s0 ?s5" using 5 by (rule rtranclp.rtrancl_into_rtrancl)
  then show "(prefetch_step imread_ok 1)\<^sup>*\<^sup>* ?s0 ?s6" using 6 by (rule rtranclp.rtrancl_into_rtrancl)
qed

theorem prefetch_order_witness:
  "(prefetch_step imread_ok 1)\<^sup>*\<^sup>* (prefetch_init [''a.png'', ''b.png''])
     \<lparr>todo = [], producer_done = True, que = [],
      pushed = [Some ''a.png'', Some ''b.png'', None],
      yielded = [''a.png'', ''b.png''], stopped = True\<rparr>
   \<and> map Some [''a.png'', ''b.png''] = map imread_ok [''a.png'', ''b.png'']
   \<and> count_list [Some ''a.png'', Some ''b.png'', None] None = 1"
proof -
  have dec: "\<forall>p \<in> set [''a.png'', ''b.png'']. imread_ok p \<noteq> None"
    by (simp add: imread_ok_def)
  note th = prefetch_order[OF dec run_ok]
  note cnt = th[THEN conjunct2, THEN conjunct2, THEN conjunct1]
  note fin = th[THEN conjunct2, THEN conjunct2, THEN conjunct2, THEN conjunct2, THEN conjunct2,
                THEN conjunct1]
  have "map Some [''a.png'', ''b.png''] = map imread_ok [''a.png'', ''b.png'']"
    using fin by simp
  moreover have "count_list [Some ''a.png'', Some ''b.png'', None] None = (1::nat)"
    using cnt by simp
  ultimately show ?thesis using run_ok by (intro conjI)
qed

text \<open>
  C9 as stated, for every list of source paths, fails when a path does not decode:
  \<open>cv2.imread\<close> returns \<open>None\<close>, which \<open>__next__\<close> takes for the sentinel.  With
  \<open>missing.png\<close> before \<open>ok.png\<close> the iteration ends without returning the image of
  \<open>ok.png\<close>, which is left on the queue, and \<open>None\<close> has been put twice.
\<close>

theorem prefetch_undecodable_counterexample:
  "(prefetch_step imread_missing 2)\<^sup>*\<^sup>* (prefetch_init [''missing.png'', ''ok.png''])
     \<lparr>todo = [], producer_done = True, que = [Some ''ok.png'', None],
      pushed = [None, Some ''ok.png'', None], yielded = [], stopped = True\<rparr>
   \<and> imread_missing ''ok.png'' = Some ''ok.png''"
proof -
  let ?s0 = "prefetch_init [''missing.png'', ''ok.png''] :: (string, string) prefetch"
  let ?s1 = "\<lparr>todo = [''ok.png''], producer_done = False, que = [None],
      pushed = [None], yielded = [], stopped = False\<rparr> :: (string, string) prefetch"
  let ?s2 = "\<lparr>todo = [''ok.png''], producer_done = False, que = [],
      pushed = [None], yielded = [], stopped = True\<rparr> :: (string, string) prefetch"
  let ?s3 = "\<lparr>todo = [], producer_done = False, que = [Some ''ok.png''],
      pushed = [None, Some ''ok.png''], yielded = [], stopped = True\<rparr> :: (string, string) prefetch"
  let ?s4 = "\<lparr>todo = [], producer_done = True, que = [Some ''ok.png'', None],
      pushed = [None, Some ''ok.png'', None], yielded = [], stopped = True\<rparr>
      :: (string, string) prefetch"
  have 1: "prefetch_step imread_missing 2 ?s0 ?s1"
    using prefetch_step.put_img[of ?s0 "''missing.png''" "[''ok.png'']" 2 imread_missing]
    by (simp add: prefetch_init_def queue_full_def imread_missing_def)
  have 2: "prefetch_step imread_missing 2 ?s1 ?s2"
    using prefetch_step.next_stop[of ?s1 "[]" imread_missing 2] by simp
  have 3: "prefetch_step imread_missing 2 ?s2 ?s3"
    using prefetch_step.put_img[of ?s2 "''ok.png''" "[]" 2 imread_missing]
    by (simp add: queue_full_def imread_missing_def)
  have 4: "prefetch_step imread_missing 2 ?s3 ?s4"
    using prefetch_step.put_sentinel[of ?s3 2 imread_missing] by (simp add: queue_full_def)
  have "(prefetch_step imread_missing 2)\<^sup>*\<^sup>* ?s0 ?s1" using 1 by (rule r_into_rtranclp)
  then have "(prefetch_step imread_missing 2)\<^sup>*\<^sup>* ?s0 ?s2" using 2 by (rule rtranclp.rtrancl_into_rtrancl)
  then have "(prefetch_step imread_missing 2)\<^sup>*\<^sup>* ?s0 ?s3" using 3 by (rule rtranclp.rtrancl_into_rtrancl)
  then have "(prefetch_step imread_missing 2)\<^sup>*\<^sup>* ?s0 ?s4" using 4 by (rule rtranclp.rtrancl_into_rtrancl)
  then show ?thesis by (simp add: imread_missing_def)
qed

subsection \<open>The per-image pipeline\<close>

subsubsection \<open>The configuration of the instance is not changed by its methods\<close>

lemma tile_step_config:
  assumes "tile_step height width tiles_x tiles_y yx (self, ot) = (r, self', ot')"
  shows "scale self' = scale self \<and> outscale self' = outscale self"
  using assms
  by (cases yx) (auto simp: tile_step_def Let_def split: sum.splits option.splits if_splits)

lemma tile_loop_config:
  assumes "tile_loop height width tiles_x tiles_y cs (self, ot) = (r, self', ot')"
  shows "scale self' = scale self \<and> outscale self' = outscale self"
  using assms
proof (induction cs arbitrary: self ot)
  case Nil
  then show ?case by simp
next
  case (Cons c cs)
  obtain r1 self1 ot1 where st: "tile_step height width tiles_x tiles_y c (self, ot) = (r1, self1, ot1)"
    by (metis prod_cases3)
  note c1 = tile_step_config[OF st]
  show ?case
  proof (cases r1)
    case None
    with Cons.prems st have "tile_loop height width tiles_x tiles_y cs (self1, ot1) = (r, self', ot')"
      by simp
    from Cons.IH[OF this] c1 show ?thesis by simp
  next
    case (Some e)
    with Cons.prems st have "self' = self1" by simp
    with c1 show ?thesis by simp
  qed
qed

lemma tile_process_config:
  assumes "tile_process self = (r, self')"
  shows "scale self' = scale self \<and> outscale self' = outscale self"
proof (cases "backend self = ''onnx'' \<or> backend self = ''triton''")
  case True
  with assms show ?thesis by (simp add: tile_process_def)
next
  case False
  let ?h = "int (t_height (img self))" and ?w = "int (t_width (img self))"
  show ?thesis
  proof (cases "new_zeros (?h * scale self) (?w * scale self) :: error + 'a tensor")
    case (Inl e)
    with assms False show ?thesis by (simp add: tile_process_def Let_def)
  next
    case (Inr z)
    show ?thesis
    proof (cases "tile_size self = 0")
      case True
      with assms False Inr show ?thesis by (auto simp: tile_process_def Let_def)
    next
      case ts: False
      let ?tx = "\<lceil>real_of_int ?w / real_of_int (tile_size self)\<rceil>"
      let ?ty = "\<lceil>real_of_int ?h / real_of_int (tile_size self)\<rceil>"
      obtain r2 self2 ot2 where
        l: "tile_loop ?h ?w ?tx ?ty (tile_coords ?ty ?tx) (self\<lparr>output' := z\<rparr>, None) = (r2, self2, ot2)"
        by (metis prod_cases3)
      with assms False Inr ts have "self' = self2" by (simp add: tile_process_def Let_def)
      with tile_loop_config[OF l] show ?thesis by simp
    qed
  qed
qed

lemma process_config:
  assumes "process self = (r, self')"
  shows "scale self' = scale self \<and> outscale self' = outscale self"
  using assms
  by (auto simp: process_def run_backend_def Let_def split: if_splits sum.splits)

lemma pre_process_config:
  assumes "pre_process self inp = (r, self')"
  shows "scale self' = scale self \<and> outscale self' = outscale self"
  using assms
  by (auto simp: pre_process_def pre_pad_step_def mod_pad_step_def set_mod_scale_def Let_def
           split: if_splits sum.splits option.splits prod.splits)

lemma pre_process_numpy_config:
  assumes "pre_process_numpy self inp = (r, self')"
  shows "scale self' = scale self \<and> outscale self' = outscale self"
  using assms
  by (auto simp: pre_process_numpy_def pre_pad_step_numpy_def mod_pad_step_numpy_def
                 set_mod_scale_def Let_def
           split: if_splits sum.splits option.splits prod.splits)

lemma post_process_config:
  "scale (post_process self) = scale self \<and> outscale (post_process self) = outscale self"
  by (simp add: post_process_def remove_pre_pad_def remove_mod_pad_def Let_def)

lemma output_to_bgr_config:
  assumes "output_to_bgr lib self = (r, self')"
  shows "scale self' = scale self \<and> outscale self' = outscale self"
  using assms by (auto simp: output_to_bgr_def Let_def split: if_splits)

lemma pre_process_dispatch_config:
  assumes "pre_process_dispatch lib self a = (r, self')"
  shows "scale self' = scale self \<and> outscale self' = outscale self"
  using assms pre_process_config pre_process_numpy_config
  by (fastforce simp: pre_process_dispatch_def split: if_splits sum.splits)

subsubsection \<open>The stages of \<open>enhance\<close> only append to the store\<close>

lemma infer_pass_result:
  assumes "infer_pass lib self H img_ref = (r, self', H')"
  shows "scale self' = scale self \<and> outscale self' = outscale self
       \<and> (\<exists>new. H' = H @ new)
       \<and> (\<forall>out. r = Inr out \<longrightarrow> out = length H \<and> length H' = Suc (length H))"
proof -
  obtain r1 self1 where a: "pre_process_dispatch lib self (H ! img_ref) = (r1, self1)"
    by (cases "pre_process_dispatch lib self (H ! img_ref)")
  note c1 = pre_process_dispatch_config[OF a]
  show ?thesis
  proof (cases r1)
    case (Some e)
    with assms a c1 show ?thesis by (auto simp: infer_pass_def)
  next
    case None
    obtain r2 self2 where
      b: "(if 0 < tile_size self1 then tile_process self1 else process self1) = (r2, self2)"
      by (cases "if 0 < tile_size self1 then tile_process self1 else process self1")
    have c2: "scale self2 = scale self1 \<and> outscale self2 = outscale self1"
    proof (cases "0 < tile_size self1")
      case True
      with b have "tile_process self1 = (r2, self2)" by simp
      then show ?thesis by (rule tile_process_config)
    next
      case False
      with b have "process self1 = (r2, self2)" by simp
      then show ?thesis by (rule process_config)
    qed
    show ?thesis
    proof (cases r2)
      case (Some e)
      with assms a None b c1 c2 show ?thesis by (auto simp: infer_pass_def)
    next
      case n2: None
      obtain r3 self3 where c: "output_to_bgr lib (post_process self2) = (r3, self3)"
        by (cases "output_to_bgr lib (post_process self2)")
      have c3: "scale self3 = scale self2 \<and> outscale self3 = outscale self2"
        using output_to_bgr_config[OF c] post_process_config[of self2] by simp
      show ?thesis
        using assms a None b n2 c c1 c2 c3
        by (cases r3) (auto simp: infer_pass_def alloc_def)
    qed
  qed
qed

lemma convert_result:
  assumes "convert lib code H r = (res, H')"
  shows "(\<exists>new. H' = H @ new)
       \<and> (\<forall>out. res = Inr out \<longrightarrow> out = length H \<and> (\<exists>a. H' = H @ [a] \<and> cvtColor lib code (H ! r) = Inr a))"
  using assms by (auto simp: convert_def alloc_def split: sum.splits)

lemma enhance_input_result:
  assumes "enhance_input self H img_ref = (r, self', H')"
  shows "scale self' = scale self \<and> outscale self' = outscale self \<and> (\<exists>new. H' = H @ new)"
  using assms
  by (auto simp: enhance_input_def alloc_def Let_def split: list.splits sum.splits if_splits)

lemma enhance_mode_result:
  assumes "enhance_mode lib H img_ref alpha_upsampler = (r, H')"
  shows "\<exists>new. H' = H @ new"
  using assms
  by (auto simp: enhance_mode_def alloc_def split: sum.splits if_splits)

lemma upscale_alpha_result:
  assumes "upscale_alpha lib self H alpha alpha_upsampler = (r, self', H')"
  shows "scale self' = scale self \<and> outscale self' = outscale self \<and> (\<exists>new. H' = H @ new)"
proof (cases "alpha_upsampler = ''realesrgan''")
  case True
  obtain r1 self1 H1 where a: "infer_pass lib self H alpha = (r1, self1, H1)"
    by (metis prod_cases3)
  note i = infer_pass_result[OF a]
  show ?thesis
  proof (cases r1)
    case (Inl e)
    with assms True a i show ?thesis by (auto simp: upscale_alpha_def)
  next
    case (Inr oa)
    obtain r2 H2 where b: "convert lib COLOR_BGR2GRAY H1 oa = (r2, H2)"
      by (cases "convert lib COLOR_BGR2GRAY H1 oa")
    from convert_result[OF b] i obtain new where "H2 = H @ new" by auto
    with assms True a Inr b i show ?thesis by (auto simp: upscale_alpha_def)
  qed
next
  case False
  with assms show ?thesis
    by (auto simp: upscale_alpha_def alloc_def split: list.splits sum.splits)
qed

lemma merge_alpha_result:
  assumes "merge_alpha lib H output_img output_alpha = (r, H')"
  shows "\<exists>new. H' = H @ new"
proof -
  obtain r1 H1 where a: "convert lib COLOR_BGR2BGRA H output_img = (r1, H1)"
    by (cases "convert lib COLOR_BGR2BGRA H output_img")
  note c = convert_result[OF a]
  show ?thesis
  proof (cases r1)
    case (Inl e)
    with assms a c show ?thesis by (auto simp: merge_alpha_def)
  next
    case (Inr bgra)
    with c obtain b where h1: "H1 = H @ [b]" and r: "bgra = length H" by auto
    show ?thesis
    proof (cases "np_set_channel (H1 ! bgra) 3 (H1 ! output_alpha)")
      case (Inl e)
      with assms a Inr h1 show ?thesis by (auto simp: merge_alpha_def)
    next
      case w: (Inr written)
      with assms a Inr have "H' = H1[bgra := written]" by (simp add: merge_alpha_def)
      with h1 r have "H' = H @ [written]" by simp
      then show ?thesis by blast
    qed
  qed
qed

lemma enhance_alpha_result:
  assumes "enhance_alpha lib self H img_mode alpha output_img alpha_upsampler = (r, self', H')"
  shows "scale self' = scale self \<and> outscale self' = outscale self \<and> (\<exists>new. H' = H @ new)"
proof (cases "img_mode = ''RGBA''")
  case False
  with assms show ?thesis by (simp add: enhance_alpha_def)
next
  case True
  show ?thesis
  proof (cases alpha)
    case None
    with assms True show ?thesis by (simp add: enhance_alpha_def)
  next
    case (Some alpha_ref)
    obtain r1 self1 H1 where a: "upscale_alpha lib self H alpha_ref alpha_upsampler = (r1, self1, H1)"
      by (metis prod_cases3)
    note u = upscale_alpha_result[OF a]
    show ?thesis
    proof (cases r1)
      case (Inl e)
      with assms True Some a u show ?thesis by (auto simp: enhance_alpha_def)
    next
      case (Inr oa)
      obtain r2 H2 where b: "merge_alpha lib H1 output_img oa = (r2, H2)"
        by (cases "merge_alpha lib H1 output_img oa")
      from merge_alpha_result[OF b] u obtain new where "H2 = H @ new" by auto
      with assms True Some a Inr b u show ?thesis by (auto simp: enhance_alpha_def)
    qed
  qed
qed

lemma enhance_finish_result:
  assumes "enhance_finish lib self H output_img max_range h_input w_input = (r, H')"
  shows "(\<exists>new. H' = H @ new)
     \<and> (\<forall>out. r = Inr out \<longrightarrow>
          (outscale self = None \<or> (\<exists>s. outscale self = Some s \<and> py_float (scale self) = Inr s)
             \<longrightarrow> out = length H \<and> H' = H @ [requantize lib max_range (H ! output_img)])
        \<and> (\<forall>s. outscale self = Some s \<and> py_float (scale self) \<noteq> Inr s
             \<longrightarrow> out = Suc (length H)
               \<and> (\<exists>resized.
                     resize lib (requantize lib max_range (H ! output_img))
                       (py_int (fl64 (fl64 (real w_input) * s)),
                        py_int (fl64 (fl64 (real h_input) * s))) INTER_LANCZOS4 = Inr resized
                   \<and> H' = H @ [requantize lib max_range (H ! output_img), resized])))"
proof (cases "outscale self")
  case None
  with assms show ?thesis by (auto simp: enhance_finish_def alloc_def)
next
  case (Some r0)
  show ?thesis
  proof (cases "py_float (scale self)")
    case (Inl e)
    with assms Some show ?thesis by (auto simp: enhance_finish_def alloc_def)
  next
    case (Inr s0)
    show ?thesis
    proof (cases "r0 = s0")
      case True
      with assms Some Inr show ?thesis by (auto simp: enhance_finish_def alloc_def)
    next
      case False
      show ?thesis
      proof (cases "int_of_product w_input r0")
        case (Inl e)
        with assms Some Inr False show ?thesis by (auto simp: enhance_finish_def alloc_def)
      next
        case w: (Inr tw)
        then have tw: "tw = py_int (fl64 (fl64 (real w_input) * r0))"
          by (auto simp: int_of_product_def py_float_def Let_def split: if_splits)
        show ?thesis
        proof (cases "int_of_product h_input r0")
          case (Inl e)
          with assms Some Inr False w show ?thesis by (auto simp: enhance_finish_def alloc_def)
        next
          case h: (Inr th)
          then have th: "th = py_int (fl64 (fl64 (real h_input) * r0))"
            by (auto simp: int_of_product_def py_float_def Let_def split: if_splits)
          show ?thesis
          proof (cases "resize lib (requantize lib max_range (H ! output_img)) (tw, th) INTER_LANCZOS4")
            case (Inl e)
            with assms Some Inr False w h show ?thesis
              by (auto simp: enhance_finish_def alloc_def)
          next
            case rs: (Inr resized)
            with assms Some Inr False w h
            have "r = Inr (Suc (length H))"
              "H' = H @ [requantize lib max_range (H ! output_img), resized]"
              by (auto simp: enhance_finish_def alloc_def)
            with Some Inr False rs tw th show ?thesis by auto
          qed
        qed
      qed
    qed
  qed
qed

lemma enhance_output_result:
  assumes "enhance_output lib self H alpha_upsampler img_mode img_ref alpha = (r, self', H')"
  shows "scale self' = scale self \<and> outscale self' = outscale self \<and> (\<exists>new. H' = H @ new)"
proof -
  obtain r1 self1 H1 where a: "infer_pass lib self H img_ref = (r1, self1, H1)"
    by (metis prod_cases3)
  note i = infer_pass_result[OF a]
  from i obtain n1 where h1: "H1 = H @ n1" by blast
  show ?thesis
  proof (cases r1)
    case (Inl e)
    with assms a h1 i show ?thesis by (auto simp: enhance_output_def)
  next
    case (Inr bgr)
    obtain r2 H2 where
      b: "(if img_mode = ''L'' then convert lib COLOR_BGR2GRAY H1 bgr else (Inr bgr, H1)) = (r2, H2)"
      by (cases "if img_mode = ''L'' then convert lib COLOR_BGR2GRAY H1 bgr else (Inr bgr, H1)")
    have "\<exists>n. H2 = H1 @ n"
    proof (cases "img_mode = ''L''")
      case True
      with b have "convert lib COLOR_BGR2GRAY H1 bgr = (r2, H2)" by simp
      from convert_result[OF this] show ?thesis by blast
    next
      case False
      with b show ?thesis by simp
    qed
    with h1 obtain n2 where h2: "H2 = H @ n2" by auto
    show ?thesis
    proof (cases r2)
      case (Inl e)
      with assms a Inr b h2 i show ?thesis by (auto simp: enhance_output_def)
    next
      case r2: (Inr output_img)
      from assms a Inr b r2 have
        c: "enhance_alpha lib self1 H2 img_mode alpha output_img alpha_upsampler = (r, self', H')"
        by (simp add: enhance_output_def)
      note ea = enhance_alpha_result[OF c]
      from ea h2 obtain n3 where "H' = H @ n3" by auto
      with ea i show ?thesis by simp
    qed
  qed
qed

lemma enhance_body_result:
  assumes "enhance_body lib self H alpha_upsampler h_input w_input max_range img_mode img_ref alpha
             = (r, self', H')"
  shows "\<exists>new. H' = H @ new"
proof -
  obtain r1 self2 H3 where
    a: "enhance_output lib self H alpha_upsampler img_mode img_ref alpha = (r1, self2, H3)"
    by (metis prod_cases3)
  from enhance_output_result[OF a] obtain n3 where h3: "H3 = H @ n3" by blast
  show ?thesis
  proof (cases r1)
    case (Inl e)
    with assms a h3 show ?thesis by (auto simp: enhance_body_def)
  next
    case (Inr output_img)
    obtain r4 H4 where
      d: "enhance_finish lib self2 H3 output_img max_range h_input w_input = (r4, H4)"
      by (cases "enhance_finish lib self2 H3 output_img max_range h_input w_input")
    from enhance_finish_result[OF d] h3 obtain n4 where h4: "H4 = H @ n4" by auto
    from assms a Inr d have "H' = H4" by (cases r4) (auto simp: enhance_body_def)
    with h4 show ?thesis by blast
  qed
qed

lemma enhance_input_value:
  assumes shape: "nd_shape (H ! img_ref) = h_input # w_input # rest"
    and mx: "np_max (astype_float32 (H ! img_ref)) = Inr m"
  shows "enhance_input self H img_ref
           = (Inr (h_input, w_input, (if 256 < m then 65535 else 255), Suc (length H)),
              (if 256 < m then self\<lparr>trace := trace self @ [PrintInput16]\<rparr> else self),
              H @ [astype_float32 (H ! img_ref),
                   np_divide (astype_float32 (H ! img_ref)) (if 256 < m then 65535 else 255)])"
  using assms by (simp add: enhance_input_def alloc_def Let_def)

lemma enhance_result:
  assumes "enhance lib self H img_ref alpha_upsampler = (r, self', H')"
  shows "\<exists>new. H' = H @ new"
proof -
  obtain r1 self1 H1 where a: "enhance_input self H img_ref = (r1, self1, H1)"
    by (metis prod_cases3)
  from enhance_input_result[OF a] obtain n1 where h1: "H1 = H @ n1" by blast
  show ?thesis
  proof (cases r1)
    case (Inl e)
    with assms a h1 show ?thesis by (auto simp: enhance_def)
  next
    case (Inr p)
    obtain h_input w_input max_range img1 where p: "p = (h_input, w_input, max_range, img1)"
      by (cases p) auto
    obtain r2 H2 where b: "enhance_mode lib H1 img1 alpha_upsampler = (r2, H2)"
      by (cases "enhance_mode lib H1 img1 alpha_upsampler")
    from enhance_mode_result[OF b] h1 obtain n2 where h2: "H2 = H @ n2" by auto
    show ?thesis
    proof (cases r2)
      case (Inl e)
      with assms a Inr p b h2 show ?thesis by (auto simp: enhance_def)
    next
      case r2: (Inr q)
      obtain img_mode img2 alpha where q: "q = (img_mode, img2, alpha)" by (cases q) auto
      from assms a Inr p b r2 q have
        "enhance_body lib self1 H2 alpha_upsampler h_input w_input max_range img_mode img2 alpha
           = (r, self', H')"
        by (simp add: enhance_def)
      from enhance_body_result[OF this] h2 show ?thesis by auto
    qed
  qed
qed

text \<open>
  A call of \<open>enhance\<close> that returns an image has gone through its stages: the range
  from the maximum of the \<open>float32\<close> copy, the colour mode, the pipeline on the
  normalised image, and the quantisation of the pipeline's output.
\<close>

lemma enhance_success:
  assumes run: "enhance lib self H img_ref alpha_upsampler = (Inr (out, img_mode), self', H')"
    and shape: "nd_shape (H ! img_ref) = h_input # w_input # rest"
  shows "\<exists>m img2 alpha H2 output_img H3.
           np_max (astype_float32 (H ! img_ref)) = Inr m
         \<and> enhance_mode lib
              (H @ [astype_float32 (H ! img_ref),
                    np_divide (astype_float32 (H ! img_ref)) (if 256 < m then 65535 else 255)])
              (Suc (length H)) alpha_upsampler
             = (Inr (img_mode, img2, alpha), H2)
         \<and> enhance_output lib
              (if 256 < m then self\<lparr>trace := trace self @ [PrintInput16]\<rparr> else self)
              H2 alpha_upsampler img_mode img2 alpha
             = (Inr output_img, self', H3)
         \<and> enhance_finish lib self' H3 output_img (if 256 < m then 65535 else 255) h_input w_input
             = (Inr out, H')
         \<and> scale self' = scale self \<and> outscale self' = outscale self"
proof (cases "np_max (astype_float32 (H ! img_ref))")
  case (Inl e)
  then have "fst (enhance_input self H img_ref) = Inl e"
    using shape by (simp add: enhance_input_def alloc_def)
  then have "fst (enhance lib self H img_ref alpha_upsampler) = Inl e"
    by (cases "enhance_input self H img_ref") (auto simp: enhance_def)
  with run show ?thesis by simp
next
  case (Inr m)
  let ?mr = "if 256 < m then 65535 else 255 :: int"
  note iv = enhance_input_value[OF shape Inr, of self]
  let ?self1 = "(if 256 < m then self\<lparr>trace := trace self @ [PrintInput16]\<rparr> else self)"
  let ?H1 = "H @ [astype_float32 (H ! img_ref),
                  np_divide (astype_float32 (H ! img_ref)) (if 256 < m then 65535 else 255)]"
  have cfg: "scale ?self1 = scale self" "outscale ?self1 = outscale self" by simp_all
  obtain r2 H2 where b: "enhance_mode lib ?H1 (Suc (length H)) alpha_upsampler = (r2, H2)"
    by (cases "enhance_mode lib ?H1 (Suc (length H)) alpha_upsampler")
  show ?thesis
  proof (cases r2)
    case (Inl e)
    with run iv b show ?thesis by (simp add: enhance_def)
  next
    case r2: (Inr q)
    obtain mode img2 alpha where q: "q = (mode, img2, alpha)" by (cases q) auto
    from run iv b r2 q have
      body: "enhance_body lib ?self1 H2 alpha_upsampler h_input w_input ?mr mode img2 alpha
           = (Inr (out, img_mode), self', H')"
      by (simp add: enhance_def)
    obtain r3 self2 H3 where
      c: "enhance_output lib ?self1 H2 alpha_upsampler mode img2 alpha = (r3, self2, H3)"
      by (metis prod_cases3)
    note eo = enhance_output_result[OF c, unfolded cfg]
    show ?thesis
    proof (cases r3)
      case (Inl e)
      with body c show ?thesis by (simp add: enhance_body_def)
    next
      case r3: (Inr output_img)
      obtain r4 H4 where
        d: "enhance_finish lib self2 H3 output_img ?mr h_input w_input = (r4, H4)"
        by (cases "enhance_finish lib self2 H3 output_img ?mr h_input w_input")
      show ?thesis
      proof (cases r4)
        case (Inl e)
        with body c r3 d show ?thesis by (simp add: enhance_body_def)
      next
        case r4: (Inr out')
        with body c r3 d have res: "out' = out" "mode = img_mode" "self2 = self'" "H4 = H'"
          by (simp_all add: enhance_body_def)
        from Inr b r2 q c r3 d r4 res eo show ?thesis by auto
      qed
    qed
  qed
qed

subsubsection \<open>Floating-point rounding\<close>

lemma pow2_powi: "pow2 q = 2 powi q"
  by (simp add: pow2_def power_int_def field_simps)

lemma pow2_pos: "0 < pow2 q"
  by (simp add: pow2_def)

lemma pow2_mono: "a \<le> b \<Longrightarrow> pow2 a \<le> pow2 b"
  by (simp add: pow2_powi power_int_increasing)

lemma pow2_less: "pow2 a < pow2 b \<Longrightarrow> a < b"
  using pow2_mono[of b a] by (cases "a < b") auto

lemma pow2_nat: "pow2 (int n) = 2 ^ n"
  by (simp add: pow2_def)

text \<open>\<open>floor_log2\<close> is the exponent: \<open>2^e \<le> x < 2^(e+1)\<close>.\<close>

lemma floor_log2_bounds:
  assumes "0 < x"
  shows "pow2 (floor_log2 x) \<le> x \<and> x < pow2 (floor_log2 x + 1)"
proof (cases "1 \<le> x")
  case True
  let ?n = "\<lfloor>x\<rfloor>"
  have n: "0 < ?n" using True by simp
  from bitlen_bounds[OF n] have lo: "2 ^ nat (bitlen ?n - 1) \<le> ?n" and hi: "?n < 2 ^ nat (bitlen ?n)"
    by simp_all
  have b1: "1 \<le> bitlen ?n" using n by (simp add: bitlen_alt_def)
  have e: "floor_log2 x = bitlen ?n - 1" using True by (simp add: floor_log2_def)
  have "pow2 (bitlen ?n - 1) = real_of_int (2 ^ nat (bitlen ?n - 1))"
    using b1 by (simp add: pow2_def)
  also have "\<dots> \<le> real_of_int ?n" using lo by linarith
  also have "\<dots> \<le> x" by simp
  finally have l: "pow2 (floor_log2 x) \<le> x" by (simp add: e)
  have "?n + 1 \<le> 2 ^ nat (bitlen ?n)" using hi by simp
  then have "real_of_int (?n + 1) \<le> real_of_int (2 ^ nat (bitlen ?n))" by linarith
  moreover have "x < real_of_int (?n + 1)" by linarith
  ultimately have "x < real_of_int (2 ^ nat (bitlen ?n))" by linarith
  moreover have "pow2 (bitlen ?n) = real_of_int (2 ^ nat (bitlen ?n))"
    using b1 by (simp add: pow2_def)
  ultimately have "x < pow2 (floor_log2 x + 1)" by (simp add: e)
  with l show ?thesis by simp
next
  case False
  let ?y = "1 / x"
  let ?m = "\<lceil>?y\<rceil> - 1"
  have y1: "1 < ?y" using False assms by simp
  have m: "0 < ?m" using y1 by linarith
  have my: "real_of_int ?m < ?y" by linarith
  have ym: "?y \<le> real_of_int ?m + 1" by linarith
  from bitlen_bounds[OF m] have lo: "2 ^ nat (bitlen ?m - 1) \<le> ?m" and hi: "?m < 2 ^ nat (bitlen ?m)"
    by simp_all
  have b1: "1 \<le> bitlen ?m" using m by (simp add: bitlen_alt_def)
  have e: "floor_log2 x = - bitlen ?m" using False by (simp add: floor_log2_def)
  have "?m + 1 \<le> 2 ^ nat (bitlen ?m)" using hi by simp
  then have "real_of_int ?m + 1 \<le> real_of_int (2 ^ nat (bitlen ?m))" by linarith
  with ym have "?y \<le> real_of_int (2 ^ nat (bitlen ?m))" by linarith
  then have "?y \<le> 2 ^ nat (bitlen ?m)" by simp
  then have "1 \<le> x * 2 ^ nat (bitlen ?m)" using assms by (simp add: field_simps)
  then have "1 / 2 ^ nat (bitlen ?m) \<le> x" by (simp add: field_simps)
  moreover have "pow2 (- bitlen ?m) = 1 / 2 ^ nat (bitlen ?m)"
    using b1 by (simp add: pow2_def)
  ultimately have l: "pow2 (floor_log2 x) \<le> x" by (simp add: e)
  have "real_of_int (2 ^ nat (bitlen ?m - 1)) \<le> real_of_int ?m" using lo by linarith
  with my have "real_of_int (2 ^ nat (bitlen ?m - 1)) < ?y" by linarith
  then have "2 ^ nat (bitlen ?m - 1) < ?y" by simp
  then have "x * 2 ^ nat (bitlen ?m - 1) < 1" using assms by (simp add: field_simps)
  then have "x < 1 / 2 ^ nat (bitlen ?m - 1)" by (simp add: field_simps)
  moreover have "pow2 (- bitlen ?m + 1) = 1 / 2 ^ nat (bitlen ?m - 1)"
  proof (cases "bitlen ?m = 1")
    case True
    then show ?thesis by (simp add: pow2_def)
  next
    case False
    with b1 have "\<not> 0 \<le> - bitlen ?m + 1" by simp
    moreover have "nat (- (- bitlen ?m + 1)) = nat (bitlen ?m - 1)" by simp
    ultimately show ?thesis unfolding pow2_def by simp
  qed
  ultimately have "x < pow2 (floor_log2 x + 1)" by (simp add: e)
  with l show ?thesis by simp
qed

lemma floor_log2_unique:
  assumes "pow2 e \<le> x" and "x < pow2 (e + 1)"
  shows "floor_log2 x = e"
proof -
  have x: "0 < x" using assms(1) pow2_pos[of e] by linarith
  note b = floor_log2_bounds[OF x]
  from assms(1) b have "pow2 e < pow2 (floor_log2 x + 1)" by linarith
  then have "e < floor_log2 x + 1" by (rule pow2_less)
  moreover from assms(2) b have "pow2 (floor_log2 x) < pow2 (e + 1)" by linarith
  then have "floor_log2 x < e + 1" by (rule pow2_less)
  ultimately show ?thesis by simp
qed

lemma round_half_even_of_int: "round_half_even (real_of_int n) = n"
  by (simp add: round_half_even_def)

lemma round_half_even_near: "\<bar>real_of_int (round_half_even y) - y\<bar> \<le> 1 / 2"
proof -
  have "real_of_int \<lfloor>y\<rfloor> \<le> y" "y < real_of_int \<lfloor>y\<rfloor> + 1" by linarith+
  then show ?thesis by (auto simp: round_half_even_def Let_def)
qed

lemma round_half_even_le:
  assumes "y \<le> real_of_int N"
  shows "round_half_even y \<le> N"
proof -
  have fN: "\<lfloor>y\<rfloor> \<le> N" using assms by (simp add: floor_le_iff)
  show ?thesis
  proof (cases "\<lfloor>y\<rfloor> = N")
    case True
    then have "y - real_of_int \<lfloor>y\<rfloor> \<le> 0" using assms by simp
    then have "round_half_even y = \<lfloor>y\<rfloor>" by (simp add: round_half_even_def Let_def)
    with fN show ?thesis by simp
  next
    case False
    with fN have "\<lfloor>y\<rfloor> + 1 \<le> N" by simp
    moreover have "round_half_even y = \<lfloor>y\<rfloor> \<or> round_half_even y = \<lfloor>y\<rfloor> + 1"
      by (simp add: round_half_even_def Let_def)
    ultimately show ?thesis using fN by auto
  qed
qed

lemma round_half_even_ge:
  assumes "real_of_int N \<le> y"
  shows "N \<le> round_half_even y"
proof -
  have "N \<le> \<lfloor>y\<rfloor>" using assms by (simp add: le_floor_iff)
  moreover have "round_half_even y = \<lfloor>y\<rfloor> \<or> round_half_even y = \<lfloor>y\<rfloor> + 1"
    by (simp add: round_half_even_def Let_def)
  ultimately show ?thesis by auto
qed

text \<open>The result is an integer multiple of the unit, and a nearest one.\<close>

lemma float_round_near:
  fixes p :: nat and emin :: int and x :: real
  assumes "x \<noteq> 0"
  defines "q \<equiv> max (floor_log2 \<bar>x\<bar> - (int p - 1)) emin"
  shows "float_round p emin x = real_of_int (round_half_even (x / pow2 q)) * pow2 q"
    and "\<bar>float_round p emin x - x\<bar> \<le> pow2 q / 2"
proof -
  show e: "float_round p emin x = real_of_int (round_half_even (x / pow2 q)) * pow2 q"
    using assms by (simp add: float_round_def Let_def)
  have "float_round p emin x - x = (real_of_int (round_half_even (x / pow2 q)) - x / pow2 q) * pow2 q"
    using pow2_pos[of q] unfolding e by (simp add: field_simps)
  then have "\<bar>float_round p emin x - x\<bar>
               = \<bar>real_of_int (round_half_even (x / pow2 q)) - x / pow2 q\<bar> * pow2 q"
    using pow2_pos[of q] by (simp add: abs_mult)
  also have "\<dots> \<le> (1 / 2) * pow2 q"
    using round_half_even_near[of "x / pow2 q"] pow2_pos[of q] by (intro mult_right_mono) simp_all
  finally show "\<bar>float_round p emin x - x\<bar> \<le> pow2 q / 2" by simp
qed

text \<open>
  Between two integers of fewer than \<open>p\<close> bits rounding stays between them; so every
  such integer is a floating-point number.
\<close>

lemma float_round_between:
  assumes "real_of_int A \<le> x" and "x \<le> real_of_int B"
    and "\<bar>A\<bar> < 2 ^ p" and "\<bar>B\<bar> < 2 ^ p" and "emin \<le> 0" and "0 < p"
  shows "real_of_int A \<le> float_round p emin x \<and> float_round p emin x \<le> real_of_int B"
proof (cases "x = 0")
  case True
  with assms show ?thesis by (simp add: float_round_def)
next
  case False
  define q where "q = max (floor_log2 \<bar>x\<bar> - (int p - 1)) emin"
  have ax: "0 < \<bar>x\<bar>" using False by simp
  have "\<bar>x\<bar> \<le> max \<bar>real_of_int A\<bar> \<bar>real_of_int B\<bar>" using assms(1,2) by linarith
  also have "\<dots> < 2 ^ p" using assms(3,4)
    by (metis (mono_tags, opaque_lifting) max_less_iff_conj of_int_abs of_int_less_numeral_power_cancel_iff)
  finally have "\<bar>x\<bar> < pow2 (int p)" by (simp add: pow2_nat)
  with floor_log2_bounds[OF ax] have "pow2 (floor_log2 \<bar>x\<bar>) < pow2 (int p)" by linarith
  then have "floor_log2 \<bar>x\<bar> < int p" by (rule pow2_less)
  with assms(5) have q0: "q \<le> 0" by (simp add: q_def)
  have pq: "pow2 q = 1 / 2 ^ nat (- q)"
  proof (cases "q = 0")
    case True then show ?thesis by (simp add: pow2_def)
  next
    case False with q0 show ?thesis by (simp add: pow2_def)
  qed
  have sc: "\<And>N. real_of_int N / pow2 q = real_of_int (N * 2 ^ nat (- q))" by (simp add: pq)
  have e: "float_round p emin x = real_of_int (round_half_even (x / pow2 q)) * pow2 q"
    using False by (simp add: float_round_def Let_def q_def)
  have "real_of_int (A * 2 ^ nat (- q)) \<le> x / pow2 q"
    unfolding sc[symmetric] using assms(1) pow2_pos[of q] by (simp add: divide_right_mono)
  then have "A * 2 ^ nat (- q) \<le> round_half_even (x / pow2 q)" by (rule round_half_even_ge)
  then have "real_of_int (A * 2 ^ nat (- q)) \<le> real_of_int (round_half_even (x / pow2 q))"
    by linarith
  then have "real_of_int (A * 2 ^ nat (- q)) * pow2 q \<le> float_round p emin x"
    unfolding e using pow2_pos[of q] by (simp add: mult_right_mono)
  then have lo: "real_of_int A \<le> float_round p emin x" by (simp add: pq)
  have "x / pow2 q \<le> real_of_int (B * 2 ^ nat (- q))"
    unfolding sc[symmetric] using assms(2) pow2_pos[of q] by (simp add: divide_right_mono)
  then have "round_half_even (x / pow2 q) \<le> B * 2 ^ nat (- q)" by (rule round_half_even_le)
  then have "real_of_int (round_half_even (x / pow2 q)) \<le> real_of_int (B * 2 ^ nat (- q))"
    by linarith
  then have "float_round p emin x \<le> real_of_int (B * 2 ^ nat (- q)) * pow2 q"
    unfolding e using pow2_pos[of q] by (simp add: mult_right_mono)
  then have hi: "float_round p emin x \<le> real_of_int B" by (simp add: pq)
  from lo hi show ?thesis by simp
qed

lemma float_round_int:
  assumes "\<bar>n\<bar> < 2 ^ p" and "emin \<le> 0" and "0 < p"
  shows "float_round p emin (real_of_int n) = real_of_int n"
  using float_round_between[of n "real_of_int n" n p emin] assms by simp


subsubsection \<open>Quantisation\<close>






subsubsection \<open>Evaluation\<close>

lemma bitlen_numeral_eval:
  "bitlen (numeral n) = bitlen (numeral n div 2) + 1"
  "bitlen 1 = 1"
  by (subst compute_bitlen, simp)+

lemmas float_eval =
  fl32_def fl64_def float_round_def floor_log2_def round_half_even_def py_int_def
  py_float_def int_of_product_def pow2_def bitlen_numeral_eval Let_def

lemmas enhance_eval =
  enhance_def enhance_input_def enhance_mode_def enhance_body_def enhance_output_def infer_pass_def
  pre_process_dispatch_def output_to_bgr_def convert_def enhance_alpha_def upscale_alpha_def
  merge_alpha_def enhance_finish_def alloc_def np_max_def astype_float32_def np_divide_def
  requantize_def astype_uint_def
  pre_process_def pre_pad_step_def set_mod_scale_def mod_pad_step_def
  process_def run_backend_def post_process_def remove_mod_pad_def remove_pre_pad_def

lemmas enhance_body_eval =
  enhance_mode_def enhance_body_def enhance_output_def infer_pass_def
  pre_process_dispatch_def output_to_bgr_def convert_def enhance_alpha_def upscale_alpha_def
  merge_alpha_def enhance_finish_def alloc_def np_divide_def
  requantize_def astype_uint_def
  pre_process_def pre_pad_step_def set_mod_scale_def mod_pad_step_def
  process_def run_backend_def post_process_def remove_mod_pad_def remove_pre_pad_def

lemmas example_eval =
  example_lib_def example_cvtColor_def example_resize_def example_to_tensor_def
  example_clamp01_def example_tensor_to_bgr_def upscale_net_def example_instance_def
  gray_pixel_def rgba_pixel_def

lemma py_float_4: "py_float 4 = Inr 4"
  by (simp add: float_eval)

lemma fl64_7_10: "fl64 (7 / 10) = 3152519739159347 / 4503599627370496"
  by (simp add: float_eval)

lemma int_of_product_1: "int_of_product (Suc 0) (7 / 4) = Inr 1"
  by (simp add: float_eval)

lemma int_of_product_10: "int_of_product 10 (3152519739159347 / 4503599627370496) = Inr 7"
  by (simp add: float_eval)

lemma fl32_204: "fl32 204 = 204"
  by (simp add: float_eval)


lemma fl32_128: "fl32 128 = 128"
  by (simp add: float_eval)

lemma example_resize_contract:
  "\<forall>a w h i res. resize example_lib a (w, h) i = Inr res
      \<longrightarrow> 0 < w \<and> 0 < h \<and> take 2 (nd_shape res) = [nat h, nat w]"
  by (auto simp: example_lib_def example_resize_def split: if_splits)

lemma triple_collapse: "fst p = a \<Longrightarrow> p = (a, fst (snd p), snd (snd p))"
  by (cases p) auto

lemma fold_max_const: "\<forall>x\<in>set vs. x = v \<Longrightarrow> fold max vs (v::real) = v"
  by (induction vs) auto

lemma np_max_gray_image:
  assumes "0 < h" and "0 < w"
  shows "np_max (gray_image h w v) = Inr v"
proof -
  have s: "set (indices [h, w]) = {[y, x] | y x. y < h \<and> x < w}"
    by (auto simp: comp_def)
  from assms have "[0, 0] \<in> set (indices [h, w])" unfolding s by simp
  then obtain i js where "indices [h, w] = i # js" by (cases "indices [h, w]") auto
  then show ?thesis
    by (simp add: np_max_def gray_image_def fold_max_const del: indices.simps)
qed

text \<open>
  C4 (as amended).  Let \<open>outscale\<close> be set and differ from \<open>float(self.scale)\<close>, let
  the input have height \<open>h_input\<close> and width \<open>w_input\<close>, and let \<open>cv2.resize\<close>
  return an image of the target size it is given (and reject an empty one).  Whenever
  \<open>enhance\<close> returns an image, its height is \<open>int(h_input * outscale)\<close> and its
  width is \<open>int(w_input * outscale)\<close>, where the product is the one that Python
  computes, the binary64 product of \<open>float(h_input)\<close> and \<open>outscale\<close>, and \<open>int\<close>
  truncates it towards zero; both are positive.
\<close>

theorem enhance_outscale_dims:
  assumes run: "enhance lib self H img_ref alpha_upsampler = (Inr (out, img_mode), self', H')"
    and shape: "nd_shape (H ! img_ref) = h_input # w_input # rest"
    and os: "outscale self = Some r" and ne: "py_float (scale self) \<noteq> Inr r"
    and contract: "\<forall>a w h i res. resize lib a (w, h) i = Inr res
                     \<longrightarrow> 0 < w \<and> 0 < h \<and> take 2 (nd_shape res) = [nat h, nat w]"
  shows "take 2 (nd_shape (H' ! out))
           = [nat (py_int (fl64 (fl64 (real h_input) * r))),
              nat (py_int (fl64 (fl64 (real w_input) * r)))]
       \<and> 0 < py_int (fl64 (fl64 (real h_input) * r))
       \<and> 0 < py_int (fl64 (fl64 (real w_input) * r))"
proof -
  from enhance_success[OF run shape] obtain m :: real and output_img H3 where
    fin: "enhance_finish lib self' H3 output_img (if 256 < m then 65535 else 255) h_input w_input
            = (Inr out, H')"
    and cfg: "scale self' = scale self" "outscale self' = outscale self"
    by blast
  from os ne cfg have c: "outscale self' = Some r \<and> py_float (scale self') \<noteq> Inr r" by simp
  let ?q = "requantize lib (if 256 < m then 65535 else 255) (H3 ! output_img)"
  from enhance_finish_result[OF fin, THEN conjunct2, rule_format, OF refl, THEN conjunct2,
         rule_format, OF c]
  obtain resized where o: "out = Suc (length H3)"
    and rs: "resize lib ?q (py_int (fl64 (fl64 (real w_input) * r)),
                           py_int (fl64 (fl64 (real h_input) * r))) INTER_LANCZOS4 = Inr resized"
    and h: "H' = H3 @ [?q, resized]"
    by blast
  from o h have "H' ! out = resized" by (simp add: nth_append)
  with contract rs show ?thesis by blast
qed

theorem enhance_outscale_dims_witness:
  "fst (enhance example_lib (example_instance (Some (fl64 (7 / 10)))) [gray_image 10 10 204] 0
          ''realesrgan'')
     = Inr (7, ''L'')
   \<and> take 2 (nd_shape (snd (snd (enhance example_lib (example_instance (Some (fl64 (7 / 10))))
        [gray_image 10 10 204] 0 ''realesrgan'')) ! 7)) = [7, 7]
   \<and> fl64 (7 / 10) = 3152519739159347 / 2 ^ 52
   \<and> py_int (real 10 * fl64 (7 / 10)) = 6"
proof -
  let ?self = "example_instance (Some (fl64 (7 / 10)))"
  let ?e = "enhance example_lib ?self [gray_image 10 10 204] 0 ''realesrgan''"
  have r: "fl64 (7 / 10) = 3152519739159347 / 2 ^ 52" by (simp add: float_eval)
  have a32: "astype_float32 ([gray_image 10 10 204] ! 0) = gray_image 10 10 204"
    by (simp add: astype_float32_def gray_image_def fl32_204)
  have mx: "np_max (astype_float32 ([gray_image 10 10 204] ! 0)) = Inr 204"
    unfolding a32 by (rule np_max_gray_image) simp_all
  have shape: "nd_shape ([gray_image 10 10 204] ! 0) = 10 # 10 # []" by (simp add: gray_image_def)
  have iv: "enhance_input ?self [gray_image 10 10 204] 0
              = (Inr (10, 10, 255, 2), ?self,
                 [gray_image 10 10 204, gray_image 10 10 204, np_divide (gray_image 10 10 204) 255])"
    using enhance_input_value[OF shape mx, of ?self] a32 by simp
  have f: "fst ?e = Inr (7, ''L'')"
    unfolding enhance_def iv
    by (simp add: enhance_body_eval example_eval fl64_7_10 py_float_4 int_of_product_10
          gray_image_def list_get_def Let_def cong: eval_cong)
  note run = triple_collapse[OF f]
  have os: "outscale ?self = Some (fl64 (7 / 10))"
    by (simp add: example_instance_def)
  have ne: "py_float (scale ?self) \<noteq> Inr (fl64 (7 / 10))"
    by (simp add: example_instance_def float_eval)
  from enhance_outscale_dims[OF run shape os ne example_resize_contract]
  have t: "take 2 (nd_shape (snd (snd ?e) ! 7))
          = [nat (py_int (fl64 (fl64 (real 10) * fl64 (7 / 10)))),
             nat (py_int (fl64 (fl64 (real 10) * fl64 (7 / 10))))]"
    by (rule conjunct1)
  have x: "py_int (fl64 (fl64 (real 10) * fl64 (7 / 10))) = 7" by (simp add: float_eval)
  have d: "take 2 (nd_shape (snd (snd ?e) ! 7)) = [7, 7]" unfolding t x by simp
  have y: "py_int (real 10 * fl64 (7 / 10)) = 6" by (simp add: float_eval)
  from f d r y show ?thesis by (intro conjI)
qed

text \<open>
  C4 as stated, with \<open>round\<close>, fails: for an input of one pixel and an \<open>outscale\<close> of
  1.75 the image returned is 1 by 1, while \<open>round(1 * 1.75)\<close> is 2.
\<close>

theorem enhance_outscale_round_counterexample:
  "fst (enhance example_lib (example_instance (Some 1.75)) [gray_pixel 204] 0 ''realesrgan'')
     = Inr (7, ''L'')
   \<and> take 2 (nd_shape (snd (snd (enhance example_lib (example_instance (Some 1.75))
        [gray_pixel 204] 0 ''realesrgan'')) ! 7)) = [1, 1]
   \<and> take 2 (nd_shape ([gray_pixel 204] ! 0)) = [1, 1]
   \<and> fl64 1.75 = 1.75
   \<and> round_half_even (fl64 (fl64 1 * 1.75)) = 2"
proof -
  let ?e = "enhance example_lib (example_instance (Some 1.75)) [gray_pixel 204] 0 ''realesrgan''"
  have f: "fst ?e = Inr (7, ''L'')"
    by (simp add: enhance_eval example_eval fl32_204 py_float_4 int_of_product_1 list_get_def
          Let_def cong: eval_cong)
  note run = triple_collapse[OF f]
  have shape: "nd_shape ([gray_pixel 204] ! 0) = 1 # 1 # []" by (simp add: gray_pixel_def)
  have c: "outscale (example_instance (Some 1.75)) = Some 1.75
         \<and> py_float (scale (example_instance (Some 1.75))) \<noteq> Inr 1.75"
    by (simp add: example_instance_def float_eval)
  from enhance_success[OF run shape] obtain m :: real and output_img H3 where
    fin: "enhance_finish example_lib (fst (snd ?e)) H3 output_img (if 256 < m then 65535 else 255) 1 1
            = (Inr 7, snd (snd ?e))"
    and cfg: "scale (fst (snd ?e)) = scale (example_instance (Some 1.75))"
             "outscale (fst (snd ?e)) = outscale (example_instance (Some 1.75))"
    by blast
  from c cfg have c': "outscale (fst (snd ?e)) = Some 1.75
         \<and> py_float (scale (fst (snd ?e))) \<noteq> Inr 1.75" by simp
  let ?q = "requantize example_lib (if 256 < m then 65535 else 255) (H3 ! output_img)"
  from enhance_finish_result[OF fin, THEN conjunct2, rule_format, OF refl, THEN conjunct2,
         rule_format, OF c']
  obtain resized where o: "7 = Suc (length H3)"
    and rs: "resize example_lib ?q (py_int (fl64 (fl64 (real 1) * 1.75)),
                           py_int (fl64 (fl64 (real 1) * 1.75))) INTER_LANCZOS4 = Inr resized"
    and h: "snd (snd ?e) = H3 @ [?q, resized]"
    by blast
  from o h have "snd (snd ?e) ! 7 = resized" by (simp add: nth_append)
  with example_resize_contract rs
  have t: "take 2 (nd_shape (snd (snd ?e) ! 7))
          = [nat (py_int (fl64 (fl64 (real 1) * 1.75))), nat (py_int (fl64 (fl64 (real 1) * 1.75)))]"
    by blast
  have x: "py_int (fl64 (fl64 (real 1) * 1.75)) = 1" by (simp add: float_eval)
  have d: "take 2 (nd_shape (snd (snd ?e) ! 7)) = [1, 1]" unfolding t x by simp
  have s: "take 2 (nd_shape ([gray_pixel 204] ! 0)) = [1, 1]" by (simp add: gray_pixel_def)
  have y: "round_half_even (fl64 (fl64 1 * 1.75)) = 2" by (simp add: float_eval)
  have z: "fl64 1.75 = 1.75" by (simp add: float_eval)
  from f d s z y show ?thesis by (intro conjI)
qed



text \<open>
  C10. The caller's array is an array of the store that exists before the call.
  \<open>enhance\<close> only appends arrays to the store (its one write in place, the alpha
  channel of the merged output, goes to an array the call itself has created), so after
  the call, whether it returns or raises, the caller's array holds what it held before.
\<close>

theorem enhance_preserves_caller_array:
  assumes "img_ref < length H"
  shows "snd (snd (enhance lib self H img_ref alpha_upsampler)) ! img_ref = H ! img_ref
       \<and> (\<exists>new. snd (snd (enhance lib self H img_ref alpha_upsampler)) = H @ new)"
proof -
  obtain r self' H' where e: "enhance lib self H img_ref alpha_upsampler = (r, self', H')"
    by (metis prod_cases3)
  from enhance_result[OF e] obtain new where "H' = H @ new" by blast
  with e assms show ?thesis by (simp add: nth_append)
qed

theorem enhance_preserves_caller_array_witness:
  "fst (enhance example_lib (example_instance None) [rgba_pixel 128] 0 ''realesrgan'')
     = Inr (11, ''RGBA'')
   \<and> snd (snd (enhance example_lib (example_instance None) [rgba_pixel 128] 0 ''realesrgan'')) ! 0
     = rgba_pixel 128"
proof -
  have "fst (enhance example_lib (example_instance None) [rgba_pixel 128] 0 ''realesrgan'')
     = Inr (11, ''RGBA'')"
    by (simp add: enhance_eval example_eval fl32_128 Let_def list_get_def np_channel_def
          np_channels_def np_set_channel_def slice_bound_def tile_process_def upt_conv_Cons
          cong: eval_cong)
  moreover have "(0::nat) < length [rgba_pixel 128]" by simp
  from enhance_preserves_caller_array[OF this, of example_lib "example_instance None" "''realesrgan''"]
  have "snd (snd (enhance example_lib (example_instance None) [rgba_pixel 128] 0 ''realesrgan'')) ! 0
     = rgba_pixel 128" by simp
  ultimately show ?thesis by simp
qed

end
